theory Spec2Isabelle
  imports Complex_Main
begin

section \<open>Data model\<close>

text \<open>
  The server keeps JavaScript numbers; positions, velocities, timers and speeds are
  modelled as \<open>real\<close> (the floating-point rounding of the runtime is idealised away),
  levels, experience, health, tile coordinates and tile ids as \<open>int\<close>. An object
  \<open>{x, y}\<close> is the record \<open>Point\<close>.
\<close>

record Point =
  x_coord :: real
  y_coord :: real

text \<open>
  The \<open>Partial<{left, right, up, down, direction, action}>\<close> of \<open>Player.currentInput\<close>
  and of the \<open>playerInput\<close> message: every field may be absent.
\<close>

record Input =
  inp_left :: "bool option"
  inp_right :: "bool option"
  inp_up :: "bool option"
  inp_down :: "bool option"
  inp_direction :: "string option"
  inp_action :: "string option"

text \<open>The empty object \<open>{}\<close>.\<close>

definition emptyInput :: Input where
  "emptyInput = \<lparr>inp_left = None, inp_right = None, inp_up = None, inp_down = None,
                  inp_direction = None, inp_action = None\<rparr>"

text \<open>
  Class \<open>Player\<close>. The field \<open>exp\<close> is named \<open>pexp\<close> here (\<open>exp\<close> is the exponential
  function of HOL).
\<close>

record Player =
  playerId :: string
  position :: Point
  level :: int
  pexp :: int
  health :: int
  socketId :: string
  direction :: string
  action :: string
  isAlive :: bool
  speed :: real
  currentInput :: Input

text \<open>
  The constructor applied to the \<open>newPlayerData\<close> of the \<open>init\<close> handler: position
  (300, 200), level 1, no experience, health 100, and the class defaults
  \<open>isAlive = true\<close>, \<open>speed = 60\<close>, \<open>currentInput = {}\<close>.
\<close>

definition newPlayer :: "string \<Rightarrow> string \<Rightarrow> Player" where
  "newPlayer pid sock =
     \<lparr>playerId = pid, position = \<lparr>x_coord = 300, y_coord = 200\<rparr>, level = 1, pexp = 0,
      health = 100, socketId = sock, direction = ''right'', action = ''idle'',
      isAlive = True, speed = 60, currentInput = emptyInput\<rparr>"

text \<open>\<open>TICK_RATE\<close> of the server: 20 updates per second.\<close>

definition TICK_RATE :: real where
  "TICK_RATE = 20"

text \<open>JavaScript truthiness of an optional boolean and of an optional string.\<close>

definition truthy_flag :: "bool option \<Rightarrow> bool" where
  "truthy_flag b = (b = Some True)"

definition truthy_str :: "string option \<Rightarrow> bool" where
  "truthy_str s = (case s of None \<Rightarrow> False | Some t \<Rightarrow> t \<noteq> [])"

section \<open>Player: input buffer and experience\<close>

text \<open>
  \<open>Player.setInput\<close>: the message replaces the buffer; when the previous buffer's action
  was \<open>"attack"\<close>, the new buffer's action is set to \<open>"attack"\<close>.
\<close>

definition setInput :: "Player \<Rightarrow> Input \<Rightarrow> Player" where
  "setInput p input =
     (let prev = currentInput p;
          p1 = p\<lparr>currentInput := input\<rparr>
      in if inp_action prev = Some ''attack''
         then p1\<lparr>currentInput := (currentInput p1)\<lparr>inp_action := Some ''attack''\<rparr>\<rparr>
         else p1)"

definition isAttacking :: "Player \<Rightarrow> bool" where
  "isAttacking p = (inp_action (currentInput p) = Some ''attack'')"

text \<open>
  \<open>Player.gainExp\<close>: one addition, one comparison, at most one deduction; the result
  carries the boolean the method returns (a level was gained).
\<close>

definition gainExp :: "Player \<Rightarrow> int \<Rightarrow> Player \<times> bool" where
  "gainExp p amount =
     (let p1 = p\<lparr>pexp := pexp p + amount\<rparr>
      in if pexp p1 \<ge> level p1 * 100
         then (p1\<lparr>pexp := pexp p1 - level p1 * 100, level := level p1 + 1\<rparr>, True)
         else (p1, False))"

text \<open>The states a player goes through under successive \<open>gainExp\<close> calls.\<close>

fun gainExpSeq :: "Player \<Rightarrow> int list \<Rightarrow> Player list" where
  "gainExpSeq p [] = []"
| "gainExpSeq p (a # as) = fst (gainExp p a) # gainExpSeq (fst (gainExp p a)) as"

text \<open>The invariant of the data model: \<open>0 \<le> exp < level * 100\<close>.\<close>

definition expInv :: "Player \<Rightarrow> bool" where
  "expInv p = (0 \<le> pexp p \<and> pexp p < level p * 100)"

text \<open>
  Every amount of a sequence of gains leaves the experience non-negative and stays below
  the second threshold ahead: \<open>exp + amount < level * 100 + (level + 1) * 100\<close> at the
  time of its call.
\<close>

fun withinOneLevel :: "Player \<Rightarrow> int list \<Rightarrow> bool" where
  "withinOneLevel p [] = True"
| "withinOneLevel p (a # as) =
     (0 \<le> pexp p + a \<and> pexp p + a < (2 * level p + 1) * 100 \<and>
      withinOneLevel (fst (gainExp p a)) as)"

section \<open>MapLoader: the collision query\<close>

record TileProperty =
  prop_name :: string
  prop_value :: bool

record Tile =
  tile_id :: int
  tile_properties :: "TileProperty list option"

record Tileset =
  firstgid :: int
  tiles :: "Tile list option"

record Layer =
  layer_type :: string
  layer_data :: "int list"
  layer_height :: int
  layer_width :: int

record Tilemap =
  layers :: "Layer list"
  tilesets :: "Tileset list"

record MapLoader =
  tilemap :: Tilemap
  collidableTiles :: "int set"

text \<open>
  \<open>findCollidableTiles\<close>: the global ids (\<open>id + firstgid\<close>) of the tiles with a property
  named \<open>"collideable"\<close> whose value is truthy.
\<close>

definition tileCollideable :: "Tile \<Rightarrow> bool" where
  "tileCollideable t =
     (case tile_properties t of
        None \<Rightarrow> False
      | Some ps \<Rightarrow> list_ex (\<lambda>pr. prop_name pr = ''collideable'' \<and> prop_value pr) ps)"

definition tilesetCollidable :: "Tileset \<Rightarrow> int list" where
  "tilesetCollidable ts =
     map (\<lambda>t. tile_id t + firstgid ts)
       (filter tileCollideable (case tiles ts of None \<Rightarrow> [] | Some l \<Rightarrow> l))"

definition findCollidableTiles :: "Tilemap \<Rightarrow> int set" where
  "findCollidableTiles m = set (concat (map tilesetCollidable (tilesets m)))"

definition loadMap :: "Tilemap \<Rightarrow> MapLoader" where
  "loadMap m = \<lparr>tilemap = m, collidableTiles = findCollidableTiles m\<rparr>"

text \<open>
  \<open>layer.data[index]\<close>: an index outside the array reads \<open>undefined\<close>, which no set of
  numbers contains.
\<close>

definition tileAt :: "int list \<Rightarrow> int \<Rightarrow> int option" where
  "tileAt d i = (if 0 \<le> i \<and> i < int (length d) then Some (d ! nat i) else None)"

text \<open>
  The loop of \<open>MapLoader.isTileBlocked\<close> over the layers, in order: a layer that is not a
  tile layer is skipped; the first tile layer that does not contain the cell, or holds a
  collidable tile there, answers \<open>true\<close>.
\<close>

fun blockedInLayers :: "int set \<Rightarrow> Layer list \<Rightarrow> int \<Rightarrow> int \<Rightarrow> bool" where
  "blockedInLayers c [] x y = False"
| "blockedInLayers c (l # ls) x y =
     (if layer_type l \<noteq> ''tilelayer'' then blockedInLayers c ls x y
      else if x < 0 \<or> x \<ge> layer_width l \<or> y < 0 \<or> y \<ge> layer_height l then True
      else if (case tileAt (layer_data l) (y * layer_width l + x) of
                 None \<Rightarrow> False | Some t \<Rightarrow> t \<in> c) then True
      else blockedInLayers c ls x y)"

definition isTileBlocked :: "MapLoader \<Rightarrow> int \<Rightarrow> int \<Rightarrow> bool" where
  "isTileBlocked ml x y = blockedInLayers (collidableTiles ml) (layers (tilemap ml)) x y"

section \<open>Player: movement\<close>

text \<open>The candidate position of \<open>Player.processInput\<close>: the four flags, in the source's order.\<close>

definition candidatePosition :: "Player \<Rightarrow> Point" where
  "candidatePosition p =
     (let input = currentInput p;
          x0 = x_coord (position p);
          y0 = y_coord (position p);
          x1 = (if truthy_flag (inp_left input) then x0 - speed p / TICK_RATE else x0);
          x2 = (if truthy_flag (inp_right input) then x1 + speed p / TICK_RATE else x1);
          y1 = (if truthy_flag (inp_up input) then y0 - speed p / TICK_RATE else y0);
          y2 = (if truthy_flag (inp_down input) then y1 + speed p / TICK_RATE else y1)
      in \<lparr>x_coord = x2, y_coord = y2\<rparr>)"

text \<open>
  The collision probe of a position: \<open>(x - 2, y + 16)\<close> in tile coordinates, 16 units a
  tile (\<open>spriteSize = 32\<close>, \<open>halfSpriteSize = 16\<close>).
\<close>

definition probeTile :: "Point \<Rightarrow> int \<times> int" where
  "probeTile pos =
     (let spriteSize = 32 :: real;
          halfSpriteSize = spriteSize / 2;
          collisionX = x_coord pos - 2;
          collisionY = y_coord pos + halfSpriteSize
      in (\<lfloor>collisionX / 16\<rfloor>, \<lfloor>collisionY / 16\<rfloor>))"

definition probeBlocked :: "MapLoader \<Rightarrow> Point \<Rightarrow> bool" where
  "probeBlocked ml pos = isTileBlocked ml (fst (probeTile pos)) (snd (probeTile pos))"

text \<open>
  \<open>Player.processInput\<close>: the candidate replaces the position when its probe is not
  blocked; direction and action are copied from the input when truthy; the buffer is
  reset to \<open>{}\<close>.
\<close>

definition processInput :: "MapLoader \<Rightarrow> Player \<Rightarrow> Player" where
  "processInput ml p =
     (let input = currentInput p;
          newPosition = candidatePosition p;
          p1 = (if \<not> probeBlocked ml newPosition then p\<lparr>position := newPosition\<rparr> else p);
          p2 = (case inp_direction input of
                  Some d \<Rightarrow> if d \<noteq> [] then p1\<lparr>direction := d\<rparr> else p1
                | None \<Rightarrow> p1);
          p3 = (case inp_action input of
                  Some a \<Rightarrow> if a \<noteq> [] then p2\<lparr>action := a\<rparr> else p2
                | None \<Rightarrow> p2)
      in p3\<lparr>currentInput := emptyInput\<rparr>)"

text \<open>
  A player receiving input messages and ticks: each element is the messages that arrive
  before one tick (\<open>setInput\<close> each, in order), followed by that tick's \<open>processInput\<close>.
\<close>

definition playerTick :: "MapLoader \<Rightarrow> Player \<Rightarrow> Input list \<Rightarrow> Player" where
  "playerTick ml p msgs = processInput ml (foldl setInput p msgs)"

definition playerTicks :: "MapLoader \<Rightarrow> Player \<Rightarrow> Input list list \<Rightarrow> Player" where
  "playerTicks ml p ticks = foldl (playerTick ml) p ticks"

text \<open>The tile a position itself lies in.\<close>

definition positionTile :: "Point \<Rightarrow> int \<times> int" where
  "positionTile pos = (\<lfloor>x_coord pos / 16\<rfloor>, \<lfloor>y_coord pos / 16\<rfloor>)"

section \<open>Enemy\<close>

text \<open>
  The tables \<open>players\<close> and \<open>enemies\<close> of the server are objects used as dictionaries.
  A table is modelled as the list of its entries in the order in which \<open>for ... in\<close> and
  \<open>Object.values\<close> enumerate them, each key occurring once; \<open>map_of\<close> is the lookup
  \<open>table[key]\<close>.
\<close>

type_synonym PlayerTable = "(string \<times> Player) list"

datatype ActionType = Hop | LongJump | Idle | Confused

record Enemy =
  enemy_id :: string
  e_position :: Point
  e_health :: int
  alive :: bool
  velocity :: Point
  e_direction :: string
  e_action :: ActionType
  targetPlayerId :: "string option"
  lastMovement :: "ActionType option"
  currentActionIndex :: int
  actionTimer :: real

type_synonym EnemyTable = "(string \<times> Enemy) list"

definition tableUpdate :: "string \<Rightarrow> 'v \<Rightarrow> (string \<times> 'v) list \<Rightarrow> (string \<times> 'v) list" where
  "tableUpdate k v t = map (\<lambda>(k', v'). if k' = k then (k', v) else (k', v')) t"

definition tableDelete :: "string \<Rightarrow> (string \<times> 'v) list \<Rightarrow> (string \<times> 'v) list" where
  "tableDelete k t = filter (\<lambda>(k', v'). k' \<noteq> k) t"

definition actionCycle :: "ActionType list" where
  "actionCycle = [Hop, Idle, LongJump, Idle, Idle]"

definition HOP_DISTANCE :: real where
  "HOP_DISTANCE = 10"

definition LONG_JUMP_DISTANCE :: real where
  "LONG_JUMP_DISTANCE = 60"

definition PAUSE_DURATION :: real where
  "PAUSE_DURATION = 1000"

definition MOVE_DURATION :: real where
  "MOVE_DURATION = 1000"

definition LONG_JUMP_DURATION :: real where
  "LONG_JUMP_DURATION = 600"

definition zeroVec :: Point where
  "zeroVec = \<lparr>x_coord = 0, y_coord = 0\<rparr>"

text \<open>
  The constructor; the identifier (a fresh UUID) and the position (random in
  \<open>[0, 800) \<times> [0, 600)\<close>) are parameters.
\<close>

definition newEnemy :: "string \<Rightarrow> Point \<Rightarrow> Enemy" where
  "newEnemy ident pos =
     \<lparr>enemy_id = ident, e_position = pos, e_health = 30, alive = True, velocity = zeroVec,
      e_direction = ''down'', e_action = Idle, targetPlayerId = None, lastMovement = None,
      currentActionIndex = 0, actionTimer = 0\<rparr>"

text \<open>The remainder \<open>a % b\<close> of JavaScript on integers: it has the sign of \<open>a\<close>.\<close>

definition js_rem :: "int \<Rightarrow> int \<Rightarrow> int" where
  "js_rem a b = sgn a * (\<bar>a\<bar> mod \<bar>b\<bar>)"

text \<open>\<open>this.actionCycle[i]\<close>: \<open>undefined\<close> (here \<open>None\<close>) outside the array.\<close>

definition cycleAt :: "int \<Rightarrow> ActionType option" where
  "cycleAt i = (if 0 \<le> i \<and> i < int (length actionCycle) then Some (actionCycle ! nat i) else None)"

definition getDistance :: "Point \<Rightarrow> Point \<Rightarrow> real" where
  "getDistance pos1 pos2 =
     (let dx = x_coord pos1 - x_coord pos2;
          dy = y_coord pos1 - y_coord pos2
      in sqrt (dx * dx + dy * dy))"

text \<open>\<open>Math.atan2(y, x)\<close> on real numbers (signed zeros are not distinguished).\<close>

definition atan2 :: "real \<Rightarrow> real \<Rightarrow> real" where
  "atan2 y x =
     (if x > 0 then arctan (y / x)
      else if x < 0 then (if y \<ge> 0 then arctan (y / x) + pi else arctan (y / x) - pi)
      else if y > 0 then pi / 2
      else if y < 0 then - (pi / 2)
      else 0)"

text \<open>
  \<open>Enemy.setMovement\<close>. It reads the server's table \<open>players\<close>, the same object that
  \<open>updateGameState\<close> passes to \<open>findTarget\<close> and \<open>performAction\<close>; here it is a parameter.
  Without a target, or with a target that is not in the table, it returns at once.
\<close>

definition setMovement :: "PlayerTable \<Rightarrow> Enemy \<Rightarrow> ActionType \<Rightarrow> Enemy" where
  "setMovement players e movementType =
     (if \<not> truthy_str (targetPlayerId e) then e
      else case map_of players (the (targetPlayerId e)) of
        None \<Rightarrow> e
      | Some target \<Rightarrow>
         (let dx = x_coord (position target) - x_coord (e_position e);
              dy = y_coord (position target) - y_coord (e_position e);
              angle = atan2 dy dx;
              dir = (if \<bar>dx\<bar> > \<bar>dy\<bar> then (if dx > 0 then ''right'' else ''left'')
                     else (if dy > 0 then ''down'' else ''up''));
              distance = (if movementType = Hop then HOP_DISTANCE else LONG_JUMP_DISTANCE);
              duration = (if movementType = Hop then MOVE_DURATION else LONG_JUMP_DURATION);
              spd = distance / (duration / 1000)
          in e\<lparr>e_direction := dir,
               velocity := \<lparr>x_coord = cos angle * spd, y_coord = sin angle * spd\<rparr>,
               actionTimer := duration,
               e_action := movementType\<rparr>))"

text \<open>\<open>Enemy.executeAction\<close>; \<open>None\<close> is the \<open>undefined\<close> of an index outside the cycle.\<close>

definition executeAction :: "PlayerTable \<Rightarrow> Enemy \<Rightarrow> ActionType option \<Rightarrow> Enemy" where
  "executeAction players e a =
     (case a of
        Some Hop \<Rightarrow> setMovement players e Hop
      | Some LongJump \<Rightarrow> setMovement players e LongJump
      | Some Idle \<Rightarrow> e\<lparr>velocity := zeroVec, e_action := Idle, actionTimer := PAUSE_DURATION\<rparr>
      | _ \<Rightarrow> e\<lparr>velocity := zeroVec, e_action := Idle\<rparr>)"

definition executeNextAction :: "PlayerTable \<Rightarrow> Enemy \<Rightarrow> Enemy" where
  "executeNextAction players e =
     (let i = js_rem (currentActionIndex e + 1) (int (length actionCycle))
      in executeAction players (e\<lparr>currentActionIndex := i\<rparr>) (cycleAt i))"

text \<open>
  \<open>Enemy.move\<close>: integrate the velocity, clamp to \<open>[0, 800] \<times> [0, 600]\<close>, count the timer
  down and, at or below zero, advance the cycle. The player table is passed on to
  \<open>executeAction\<close> for \<open>setMovement\<close>; nothing else of \<open>move\<close> reads it.
\<close>

definition move :: "PlayerTable \<Rightarrow> Enemy \<Rightarrow> real \<Rightarrow> Enemy" where
  "move players e deltaTime =
     (if \<not> alive e then e
      else
        (let deltaSeconds = deltaTime / 1000;
             x1 = x_coord (e_position e) + x_coord (velocity e) * deltaSeconds;
             y1 = y_coord (e_position e) + y_coord (velocity e) * deltaSeconds;
             e1 = e\<lparr>e_position := \<lparr>x_coord = max 0 (min 800 x1), y_coord = max 0 (min 600 y1)\<rparr>,
                    actionTimer := actionTimer e - deltaTime\<rparr>
         in if actionTimer e1 \<le> 0
            then (let i = js_rem (currentActionIndex e1 + 1) (int (length actionCycle))
                  in executeAction players (e1\<lparr>currentActionIndex := i\<rparr>) (cycleAt i))
            else e1))"

text \<open>\<open>Enemy.takeDamage\<close>, with the boolean it returns (the enemy died).\<close>

definition takeDamage :: "Enemy \<Rightarrow> int \<Rightarrow> Enemy \<times> bool" where
  "takeDamage e amount =
     (let e1 = e\<lparr>e_health := e_health e - amount\<rparr>
      in if e_health e1 \<le> 0 then (e1\<lparr>alive := False\<rparr>, True)
         else (e1\<lparr>velocity := zeroVec, e_action := Confused, actionTimer := PAUSE_DURATION\<rparr>,
               False))"

definition detectionRadius :: real where
  "detectionRadius = 50"

text \<open>
  The loop of \<open>Enemy.findTarget\<close> over the table. The pair of \<open>closestPlayerId\<close> and
  \<open>minDistance\<close> is \<open>None\<close> while they are \<open>null\<close> and \<open>Infinity\<close>.
\<close>

fun scanPlayers :: "Point \<Rightarrow> PlayerTable \<Rightarrow> (string \<times> real) option \<Rightarrow> (string \<times> real) option" where
  "scanPlayers pos [] best = best"
| "scanPlayers pos ((playerId', player) # rest) best =
     (let distance = getDistance pos (position player)
      in if (case best of None \<Rightarrow> True | Some (c, minDistance) \<Rightarrow> distance < minDistance)
            \<and> distance \<le> detectionRadius
         then scanPlayers pos rest (Some (playerId', distance))
         else scanPlayers pos rest best)"

text \<open>The guard of \<open>findTarget\<close>: the enemy has a target that is in the table and alive.\<close>

definition hasLiveTarget :: "PlayerTable \<Rightarrow> Enemy \<Rightarrow> bool" where
  "hasLiveTarget players e =
     (truthy_str (targetPlayerId e) \<and>
      (case map_of players (the (targetPlayerId e)) of None \<Rightarrow> False | Some pl \<Rightarrow> isAlive pl))"

definition findTarget :: "PlayerTable \<Rightarrow> Enemy \<Rightarrow> Enemy" where
  "findTarget players e =
     (if hasLiveTarget players e then e
      else case scanPlayers (e_position e) players None of
        None \<Rightarrow> e
      | Some (closestPlayerId, minDistance) \<Rightarrow>
          if closestPlayerId \<noteq> []
          then executeNextAction players
                 (e\<lparr>targetPlayerId := Some closestPlayerId, currentActionIndex := - 1\<rparr>)
          else e)"

definition performAction :: "PlayerTable \<Rightarrow> Enemy \<Rightarrow> Enemy" where
  "performAction players e =
     (if \<not> truthy_str (targetPlayerId e) then e
      else case map_of players (the (targetPlayerId e)) of
        None \<Rightarrow> e\<lparr>targetPlayerId := None, e_action := Idle, velocity := zeroVec\<rparr>
      | Some target \<Rightarrow>
          if \<not> isAlive target
          then e\<lparr>targetPlayerId := None, e_action := Idle, velocity := zeroVec\<rparr>
          else e)"

text \<open>The body of the enemy loop of \<open>updateGameState\<close>, for an enemy that is alive.\<close>

definition targetingStep :: "PlayerTable \<Rightarrow> Enemy \<Rightarrow> Enemy" where
  "targetingStep players e = performAction players (findTarget players e)"

definition enemyStep :: "PlayerTable \<Rightarrow> real \<Rightarrow> Enemy \<Rightarrow> Enemy" where
  "enemyStep players deltaTime e =
     (if alive e then move players (targetingStep players e) deltaTime else e)"

text \<open>An enemy ticking \<open>n\<close> times with the same elapsed time.\<close>

fun enemyTicks :: "PlayerTable \<Rightarrow> real \<Rightarrow> nat \<Rightarrow> Enemy \<Rightarrow> Enemy" where
  "enemyTicks players deltaTime 0 e = e"
| "enemyTicks players deltaTime (Suc n) e =
     enemyTicks players deltaTime n (enemyStep players deltaTime e)"

section \<open>Combat\<close>

text \<open>
  The loop of \<open>handleAttack\<close> over \<open>Object.values(enemies)\<close>: the entry of the closest
  enemy so far and its distance, \<open>None\<close> for \<open>null\<close> and \<open>Infinity\<close>.
\<close>

fun scanEnemies :: "Point \<Rightarrow> EnemyTable \<Rightarrow> ((string \<times> Enemy) \<times> real) option
                      \<Rightarrow> ((string \<times> Enemy) \<times> real) option" where
  "scanEnemies pos [] best = best"
| "scanEnemies pos ((k, enemy) # rest) best =
     (if \<not> alive enemy then scanEnemies pos rest best
      else
        (let distance = getDistance pos (e_position enemy)
         in if (case best of None \<Rightarrow> True | Some (c, minDistance) \<Rightarrow> distance < minDistance)
               \<and> distance < 50
            then scanEnemies pos rest (Some ((k, enemy), distance))
            else scanEnemies pos rest best))"

text \<open>
  \<open>handleAttack\<close> on the two tables. The enemy object is changed in place (the entry under
  its key); \<open>delete enemies[closestEnemy.id]\<close> removes the entry keyed by its identifier.
  The \<open>levelUp\<close> message and the database write are not part of the state.
\<close>

definition handleAttack :: "PlayerTable \<Rightarrow> EnemyTable \<Rightarrow> string \<Rightarrow> PlayerTable \<times> EnemyTable" where
  "handleAttack players enemies pid =
     (case map_of players pid of
        None \<Rightarrow> (players, enemies)
      | Some player \<Rightarrow>
         (case scanEnemies (position player) enemies None of
            None \<Rightarrow> (players, enemies)
          | Some ((k, closestEnemy), minDistance) \<Rightarrow>
             (let (e', isDead) = takeDamage closestEnemy 10;
                  enemies1 = tableUpdate k e' enemies
              in if isDead
                 then (tableUpdate pid (fst (gainExp player 50)) players,
                       tableDelete (enemy_id closestEnemy) enemies1)
                 else (players, enemies1))))"

text \<open>The body of the player loop of \<open>updateGameState\<close>, and the whole update.\<close>

definition playerStep :: "MapLoader \<Rightarrow> string \<Rightarrow> PlayerTable \<times> EnemyTable \<Rightarrow> PlayerTable \<times> EnemyTable" where
  "playerStep ml pid st =
     (case map_of (fst st) pid of
        None \<Rightarrow> st
      | Some player \<Rightarrow>
         (let st1 = (if isAttacking player then handleAttack (fst st) (snd st) pid else st)
          in case map_of (fst st1) pid of
               None \<Rightarrow> st1
             | Some player1 \<Rightarrow> (tableUpdate pid (processInput ml player1) (fst st1), snd st1)))"

definition updateGameState :: "MapLoader \<Rightarrow> real \<Rightarrow> PlayerTable \<times> EnemyTable \<Rightarrow> PlayerTable \<times> EnemyTable" where
  "updateGameState ml deltaTime st =
     (let st1 = foldl (\<lambda>s pid. playerStep ml pid s) st (map fst (fst st))
      in (fst st1, map (\<lambda>(k, e). (k, enemyStep (fst st1) deltaTime e)) (snd st1)))"

section \<open>Predicates of the properties\<close>

text \<open>
  A layer blocks a cell when it is a tile layer and the cell lies outside it or holds a
  collidable tile.
\<close>

definition layerBlocks :: "int set \<Rightarrow> Layer \<Rightarrow> int \<Rightarrow> int \<Rightarrow> bool" where
  "layerBlocks c l x y =
     (layer_type l = ''tilelayer'' \<and>
      (x < 0 \<or> x \<ge> layer_width l \<or> y < 0 \<or> y \<ge> layer_height l \<or>
       (case tileAt (layer_data l) (y * layer_width l + x) of
          None \<Rightarrow> False | Some t \<Rightarrow> t \<in> c)))"

text \<open>The rectangle \<open>[0, 800] \<times> [0, 600]\<close> of \<open>Enemy.move\<close>.\<close>

definition inArena :: "Point \<Rightarrow> bool" where
  "inArena pos = (0 \<le> x_coord pos \<and> x_coord pos \<le> 800 \<and> 0 \<le> y_coord pos \<and> y_coord pos \<le> 600)"

text \<open>The enemy's target is an entry of the player table.\<close>

definition targetInTable :: "PlayerTable \<Rightarrow> Enemy \<Rightarrow> bool" where
  "targetInTable players e =
     (truthy_str (targetPlayerId e) \<and> map_of players (the (targetPlayerId e)) \<noteq> None)"

text \<open>
  The entry at index \<open>i\<close> of the player table is within the detection radius, strictly
  nearer than every entry before it and at least as near as every entry after it: the
  first of the nearest entries in the order of enumeration.
\<close>

definition playerDistance :: "Point \<Rightarrow> string \<times> Player \<Rightarrow> real" where
  "playerDistance pos q = getDistance pos (position (snd q))"

definition firstNearestAt :: "Point \<Rightarrow> PlayerTable \<Rightarrow> nat \<Rightarrow> bool" where
  "firstNearestAt pos ps i =
     (i < length ps \<and> playerDistance pos (ps ! i) \<le> detectionRadius \<and>
      list_all (\<lambda>q. playerDistance pos (ps ! i) < playerDistance pos q) (take i ps) \<and>
      list_all (\<lambda>q. playerDistance pos (ps ! i) \<le> playerDistance pos q) (drop (Suc i) ps))"

text \<open>
  Every player of the table within the detection radius is alive and has a non-empty id.
\<close>

definition inRangeAlive :: "Point \<Rightarrow> PlayerTable \<Rightarrow> bool" where
  "inRangeAlive pos ps =
     list_all (\<lambda>q. playerDistance pos q \<le> detectionRadius \<longrightarrow> isAlive (snd q) \<and> fst q \<noteq> []) ps"

text \<open>No living player of the table is within the detection radius.\<close>

definition noneAliveInRange :: "Point \<Rightarrow> PlayerTable \<Rightarrow> bool" where
  "noneAliveInRange pos ps =
     list_all (\<lambda>q. isAlive (snd q) \<longrightarrow> detectionRadius < playerDistance pos q) ps"

text \<open>
  The entry at index \<open>i\<close> of the player table is alive and within the detection radius,
  strictly nearer than every living player before it and at least as near as every
  living player after it: of the nearest living players, the one enumerated first.
\<close>

definition firstNearestAliveAt :: "Point \<Rightarrow> PlayerTable \<Rightarrow> nat \<Rightarrow> bool" where
  "firstNearestAliveAt pos ps i =
     (i < length ps \<and> isAlive (snd (ps ! i)) \<and> playerDistance pos (ps ! i) \<le> detectionRadius \<and>
      list_all (\<lambda>q. isAlive (snd q) \<longrightarrow> playerDistance pos (ps ! i) < playerDistance pos q)
        (take i ps) \<and>
      list_all (\<lambda>q. isAlive (snd q) \<longrightarrow> playerDistance pos (ps ! i) \<le> playerDistance pos q)
        (drop (Suc i) ps))"

text \<open>
  The entry at index \<open>i\<close> of the enemy table is alive and nearer than 50, strictly nearer
  than every living enemy before it and at least as near as every living enemy after it.
\<close>

definition enemyDistance :: "Point \<Rightarrow> string \<times> Enemy \<Rightarrow> real" where
  "enemyDistance pos q = getDistance pos (e_position (snd q))"

definition firstNearestEnemyAt :: "Point \<Rightarrow> EnemyTable \<Rightarrow> nat \<Rightarrow> bool" where
  "firstNearestEnemyAt pos es i =
     (i < length es \<and> alive (snd (es ! i)) \<and> enemyDistance pos (es ! i) < 50 \<and>
      list_all (\<lambda>q. alive (snd q) \<longrightarrow> enemyDistance pos (es ! i) < enemyDistance pos q)
        (take i es) \<and>
      list_all (\<lambda>q. alive (snd q) \<longrightarrow> enemyDistance pos (es ! i) \<le> enemyDistance pos q)
        (drop (Suc i) es))"

section \<open>Concrete states\<close>

text \<open>
  The states the properties are evaluated at: a new player \<open>p1\<close> and input messages; a
  map of 20 by 14 tiles with one tile layer, empty but for the collidable tile 5 in the
  cell (19, 12); enemies near the player's spawn point; player tables in both orders of
  two players at the same distance from an enemy.
\<close>

definition ex_player :: Player where
  "ex_player = newPlayer ''p1'' ''s1''"

definition msg_attack :: Input where
  "msg_attack = emptyInput\<lparr>inp_action := Some ''attack''\<rparr>"

definition msg_up :: Input where
  "msg_up = emptyInput\<lparr>inp_up := Some True\<rparr>"

definition msg_right :: Input where
  "msg_right = emptyInput\<lparr>inp_right := Some True\<rparr>"

definition msg_right_down :: Input where
  "msg_right_down = emptyInput\<lparr>inp_right := Some True, inp_down := Some True\<rparr>"

definition msg_walk :: Input where
  "msg_walk = \<lparr>inp_left = Some False, inp_right = Some True, inp_up = Some False,
               inp_down = Some False, inp_direction = Some ''right'', inp_action = Some ''walk''\<rparr>"

definition ex_tilemap :: Tilemap where
  "ex_tilemap =
     \<lparr>layers = [\<lparr>layer_type = ''tilelayer'', layer_data = (replicate 280 0)[259 := 5],
                 layer_height = 14, layer_width = 20\<rparr>],
      tilesets = [\<lparr>firstgid = 1,
                   tiles = Some [\<lparr>tile_id = 4,
                                  tile_properties =
                                    Some [\<lparr>prop_name = ''collideable'', prop_value = True\<rparr>]\<rparr>]\<rparr>]\<rparr>"

definition ex_map :: MapLoader where
  "ex_map = loadMap ex_tilemap"

definition ex_player_low :: Player where
  "ex_player_low = ex_player\<lparr>position := \<lparr>x_coord = 300, y_coord = 207\<rparr>\<rparr>"

definition ex_enemy :: Enemy where
  "ex_enemy = newEnemy ''e1'' \<lparr>x_coord = 310, y_coord = 200\<rparr>"

definition ex_runaway :: Enemy where
  "ex_runaway = ex_enemy\<lparr>velocity := \<lparr>x_coord = 20000, y_coord = - 20000\<rparr>, actionTimer := 1000\<rparr>"

definition ex_waiting :: Enemy where
  "ex_waiting = ex_enemy\<lparr>currentActionIndex := 1, actionTimer := 50\<rparr>"

definition ex_players :: PlayerTable where
  "ex_players = [(''p1'', ex_player)]"

definition ex_hunter :: Enemy where
  "ex_hunter = ex_enemy\<lparr>e_position := \<lparr>x_coord = 500, y_coord = 200\<rparr>,
                        targetPlayerId := Some ''p1'', e_action := Hop, actionTimer := 400\<rparr>"

definition ex_player_a :: Player where
  "ex_player_a = newPlayer ''a'' ''sa''"

definition ex_player_b :: Player where
  "ex_player_b = (newPlayer ''b'' ''sb'')\<lparr>position := \<lparr>x_coord = 320, y_coord = 200\<rparr>\<rparr>"

definition ex_table_ba :: PlayerTable where
  "ex_table_ba = [(''b'', ex_player_b), (''a'', ex_player_a)]"

definition ex_table_ab :: PlayerTable where
  "ex_table_ab = [(''a'', ex_player_a), (''b'', ex_player_b)]"

definition ex_enemies :: EnemyTable where
  "ex_enemies = [(''e1'', ex_enemy)]"

definition ex_enemy_at_50 :: Enemy where
  "ex_enemy_at_50 = newEnemy ''e2'' \<lparr>x_coord = 350, y_coord = 200\<rparr>"

definition ex_enemy_weak :: Enemy where
  "ex_enemy_weak = ex_enemy\<lparr>e_health := 10\<rparr>"

definition ex_hunter_due :: Enemy where
  "ex_hunter_due = ex_hunter\<lparr>currentActionIndex := 1, actionTimer := 50\<rparr>"

section \<open>Properties of the player\<close>

subsection \<open>Experience\<close>

lemma gainExp_inv_iff:
  "expInv p \<Longrightarrow>
     expInv (fst (gainExp p a)) \<longleftrightarrow>
       (0 \<le> pexp p + a \<and> pexp p + a < (2 * level p + 1) * 100)"
  by (auto simp: expInv_def gainExp_def Let_def algebra_simps)

lemma gainExp_level_step:
  "level (fst (gainExp p a)) = (if snd (gainExp p a) then level p + 1 else level p)"
  by (simp add: gainExp_def Let_def)

lemma gainExpSeq_inv_iff:
  "expInv p \<Longrightarrow> list_all expInv (gainExpSeq p as) \<longleftrightarrow> withinOneLevel p as"
proof (induction as arbitrary: p)
  case Nil
  then show ?case by simp
next
  case (Cons a as)
  show ?case
  proof (cases "expInv (fst (gainExp p a))")
    case True
    with Cons show ?thesis by (simp add: gainExp_inv_iff)
  next
    case False
    with Cons.prems show ?thesis by (auto simp: gainExp_inv_iff)
  qed
qed

text \<open>
  C1, as the code has it. \<open>gainExp\<close> deducts at most once per call, so a call raises the
  level by at most one. From a state with \<open>0 \<le> exp < level * 100\<close>, the invariant holds
  after every call of a sequence exactly when every amount keeps the experience
  non-negative and below the second threshold ahead
  (\<open>0 \<le> exp + amount < level * 100 + (level + 1) * 100\<close> at its call); the 50 points of a
  kill always do.
\<close>

theorem gainExp_invariant:
  "expInv p \<Longrightarrow>
     (list_all expInv (gainExpSeq p as) \<longleftrightarrow> withinOneLevel p as) \<and>
     expInv (fst (gainExp p 50)) \<and>
     level (fst (gainExp p a)) \<le> level p + 1"
  using gainExpSeq_inv_iff [of p as] gainExp_inv_iff [of p 50]
  by (auto simp: gainExp_level_step expInv_def)

theorem gainExp_invariant_witness:
  "expInv ex_player \<and> withinOneLevel ex_player [50, 50, 250] \<and>
   list_all expInv (gainExpSeq ex_player [50, 50, 250]) \<and>
   level (last (gainExpSeq ex_player [50, 50, 250])) = 3"
  using gainExp_invariant [of ex_player "[50, 50, 250]" 50]
  by (simp add: ex_player_def newPlayer_def expInv_def gainExp_def Let_def)

text \<open>
  A gain that crosses two thresholds: a new player (level 1, no experience) gaining 350
  ends at level 2 with 250 experience, above the threshold 200 of level 2.
\<close>

theorem gainExp_multi_level_counterexample:
  "expInv ex_player \<and> \<not> expInv (fst (gainExp ex_player 350)) \<and>
   level (fst (gainExp ex_player 350)) = 2 \<and> pexp (fst (gainExp ex_player 350)) = 250"
  by (simp add: ex_player_def newPlayer_def expInv_def gainExp_def Let_def)

subsection \<open>The input buffer\<close>

lemma setInput_fields:
  "inp_left (currentInput (setInput p i)) = inp_left i"
  "inp_right (currentInput (setInput p i)) = inp_right i"
  "inp_up (currentInput (setInput p i)) = inp_up i"
  "inp_down (currentInput (setInput p i)) = inp_down i"
  "inp_direction (currentInput (setInput p i)) = inp_direction i"
  by (simp_all add: setInput_def Let_def)

lemma setInput_action:
  "inp_action (currentInput (setInput p i)) =
     (if isAttacking p then Some ''attack'' else inp_action i)"
  by (simp add: setInput_def isAttacking_def Let_def)

lemma foldl_setInput_attack:
  "isAttacking p \<Longrightarrow> isAttacking (foldl setInput p msgs)"
proof (induction msgs arbitrary: p)
  case Nil
  then show ?case by simp
next
  case (Cons m msgs)
  have "isAttacking (setInput p m)"
    using Cons.prems by (simp add: isAttacking_def setInput_def Let_def)
  then show ?case using Cons.IH by simp
qed

lemma processInput_clears: "currentInput (processInput ml p) = emptyInput"
  by (simp add: processInput_def Let_def split: option.splits)

text \<open>
  C2, as the code has it. \<open>setInput\<close> takes the four flags and the direction from the
  message as they are, and the buffered action is \<open>"attack"\<close> afterwards if and only if
  the message sets \<open>"attack"\<close> or the buffered action was \<open>"attack"\<close> before, whatever
  action the message sets. After \<open>{action: "attack"}\<close> and then \<open>{up: true}\<close> the player
  is attacking; \<open>processInput\<close> leaves the empty buffer, which is not attacking.
\<close>

theorem setInput_sticky_attack:
  "inp_left (currentInput (setInput p i)) = inp_left i \<and>
   inp_right (currentInput (setInput p i)) = inp_right i \<and>
   inp_up (currentInput (setInput p i)) = inp_up i \<and>
   inp_down (currentInput (setInput p i)) = inp_down i \<and>
   inp_direction (currentInput (setInput p i)) = inp_direction i \<and>
   (isAttacking (setInput p i) \<longleftrightarrow> inp_action i = Some ''attack'' \<or> isAttacking p) \<and>
   isAttacking (setInput (setInput p msg_attack) msg_up) \<and>
   currentInput (processInput ml (setInput (setInput p msg_attack) msg_up)) = emptyInput \<and>
   \<not> isAttacking (processInput ml (setInput (setInput p msg_attack) msg_up))"
  by (simp add: setInput_fields setInput_action processInput_clears isAttacking_def
      msg_attack_def msg_up_def emptyInput_def)

theorem setInput_sticky_attack_witness:
  "isAttacking (setInput ex_player msg_attack) \<and>
   isAttacking (setInput (setInput ex_player msg_attack) msg_walk) \<and>
   inp_right (currentInput (setInput (setInput ex_player msg_attack) msg_walk)) = Some True \<and>
   \<not> isAttacking (setInput ex_player msg_walk)"
  using setInput_sticky_attack [of ex_player msg_attack ex_map]
    setInput_sticky_attack [of "setInput ex_player msg_attack" msg_walk ex_map]
    setInput_sticky_attack [of ex_player msg_walk ex_map]
  by (simp add: isAttacking_def ex_player_def newPlayer_def emptyInput_def msg_attack_def
      msg_walk_def)

text \<open>
  With \<open>"attack"\<close> buffered, the message the client sends while walking, which sets
  \<open>action: "walk"\<close>, leaves \<open>"attack"\<close> buffered: the message neither sets \<open>"attack"\<close> nor
  leaves the action out.
\<close>

theorem setInput_explicit_action_counterexample:
  "\<not> (isAttacking (setInput (setInput ex_player msg_attack) msg_walk) \<longleftrightarrow>
        (inp_action msg_walk = Some ''attack'' \<or>
         (isAttacking (setInput ex_player msg_attack) \<and> inp_action msg_walk = None)))"
  by (simp add: isAttacking_def setInput_def Let_def ex_player_def newPlayer_def emptyInput_def
      msg_attack_def msg_walk_def)

text \<open>
  C10. With \<open>"attack"\<close> buffered, \<open>setInput\<close> leaves \<open>"attack"\<close> buffered whatever the
  message (also one that sets another action), so after any messages the player is still
  attacking; only \<open>processInput\<close> ends it.
\<close>

theorem setInput_attack_not_cancelled:
  "isAttacking p \<Longrightarrow>
     inp_action (currentInput (setInput p i)) = Some ''attack'' \<and>
     isAttacking (foldl setInput p msgs) \<and>
     \<not> isAttacking (processInput ml (foldl setInput p msgs))"
proof -
  assume a: "isAttacking p"
  have 1: "inp_action (currentInput (setInput p i)) = Some ''attack''"
    using a by (simp add: setInput_action)
  have 2: "isAttacking (foldl setInput p msgs)"
    using a by (rule foldl_setInput_attack)
  have 3: "\<not> isAttacking (processInput ml (foldl setInput p msgs))"
    by (simp add: isAttacking_def processInput_clears emptyInput_def)
  from 1 2 3 show ?thesis by blast
qed

theorem setInput_attack_not_cancelled_witness:
  "isAttacking (setInput ex_player msg_attack) \<and>
   inp_action msg_walk = Some ''walk'' \<and>
   inp_action (currentInput (setInput (setInput ex_player msg_attack) msg_walk)) =
     Some ''attack'' \<and>
   isAttacking (foldl setInput (setInput ex_player msg_attack) [msg_walk, msg_up]) \<and>
   \<not> isAttacking
       (processInput ex_map (foldl setInput (setInput ex_player msg_attack) [msg_walk, msg_up]))"
proof -
  have h: "isAttacking (setInput ex_player msg_attack)"
    by (simp add: isAttacking_def setInput_def Let_def msg_attack_def)
  show ?thesis
    using h setInput_attack_not_cancelled [OF h, of msg_walk "[msg_walk, msg_up]" ex_map]
    by (simp add: msg_walk_def)
qed

subsection \<open>Movement\<close>

lemma candidatePosition_eq:
  "candidatePosition p =
     \<lparr>x_coord = x_coord (position p) + speed p / TICK_RATE *
         (of_bool (truthy_flag (inp_right (currentInput p))) -
          of_bool (truthy_flag (inp_left (currentInput p)))),
      y_coord = y_coord (position p) + speed p / TICK_RATE *
         (of_bool (truthy_flag (inp_down (currentInput p))) -
          of_bool (truthy_flag (inp_up (currentInput p))))\<rparr>"
  by (simp add: candidatePosition_def Let_def algebra_simps)

lemma processInput_position:
  "position (processInput ml p) =
     (if probeBlocked ml (candidatePosition p) then position p else candidatePosition p)"
  by (simp add: processInput_def Let_def split: option.splits)

lemma setInput_position: "position (setInput p i) = position p"
  by (simp add: setInput_def Let_def)

lemma foldl_setInput_position: "position (foldl setInput p msgs) = position p"
  by (induction msgs arbitrary: p) (simp_all add: setInput_position)

lemma probeTile_303: "probeTile \<lparr>x_coord = 303, y_coord = 200\<rparr> = (18, 13)"
  by (simp add: probeTile_def Let_def)

lemma ex_map_collidable: "collidableTiles ex_map = {5}"
  by (simp add: ex_map_def loadMap_def findCollidableTiles_def tilesetCollidable_def
      tileCollideable_def ex_tilemap_def)

lemma ex_map_layers:
  "layers (tilemap ex_map) =
     [\<lparr>layer_type = ''tilelayer'', layer_data = (replicate 280 0)[259 := 5],
       layer_height = 14, layer_width = 20\<rparr>]"
  by (simp add: ex_map_def loadMap_def ex_tilemap_def)

lemma ex_map_free_18_13: "\<not> isTileBlocked ex_map 18 13"
  by (simp add: isTileBlocked_def ex_map_collidable ex_map_layers tileAt_def)

text \<open>
  C8. The candidate position adds \<open>speed / TICK_RATE\<close> once for \<open>right\<close> (\<open>down\<close>) and
  subtracts it once for \<open>left\<close> (\<open>up\<close>), so opposite flags cancel; when the probe of the
  candidate is blocked the position stays as it was in both coordinates, otherwise it is
  the candidate. A player at (300, 200) with speed 60 and the buffer \<open>{right: true}\<close>,
  the cell (18, 13) of the probe not blocked, ends at (303, 200).
\<close>

theorem processInput_displacement:
  "candidatePosition p =
     \<lparr>x_coord = x_coord (position p) + speed p / TICK_RATE *
         (of_bool (truthy_flag (inp_right (currentInput p))) -
          of_bool (truthy_flag (inp_left (currentInput p)))),
      y_coord = y_coord (position p) + speed p / TICK_RATE *
         (of_bool (truthy_flag (inp_down (currentInput p))) -
          of_bool (truthy_flag (inp_up (currentInput p))))\<rparr> \<and>
   position (processInput ml p) =
     (if probeBlocked ml (candidatePosition p) then position p else candidatePosition p) \<and>
   (position p = \<lparr>x_coord = 300, y_coord = 200\<rparr> \<and> speed p = 60 \<and>
    currentInput p = msg_right \<and> \<not> isTileBlocked ml 18 13 \<longrightarrow>
      position (processInput ml p) = \<lparr>x_coord = 303, y_coord = 200\<rparr>)"
proof -
  have scen: "position (processInput ml p) = \<lparr>x_coord = 303, y_coord = 200\<rparr>"
    if a: "position p = \<lparr>x_coord = 300, y_coord = 200\<rparr>" "speed p = 60"
      "currentInput p = msg_right" "\<not> isTileBlocked ml 18 13"
  proof -
    have c: "candidatePosition p = \<lparr>x_coord = 303, y_coord = 200\<rparr>"
      using a by (simp add: candidatePosition_def Let_def msg_right_def emptyInput_def
          truthy_flag_def TICK_RATE_def)
    show ?thesis
      using a(4) by (simp add: processInput_position c probeBlocked_def probeTile_303)
  qed
  show ?thesis
    using candidatePosition_eq [of p] processInput_position [of ml p] scen by blast
qed

theorem processInput_displacement_witness:
  "\<not> isTileBlocked ex_map 18 13 \<and>
   position (processInput ex_map (setInput ex_player msg_right)) =
     \<lparr>x_coord = 303, y_coord = 200\<rparr> \<and>
   probeBlocked ex_map (candidatePosition (setInput ex_player_low msg_right_down)) \<and>
   candidatePosition (setInput ex_player_low msg_right_down) =
     \<lparr>x_coord = 303, y_coord = 210\<rparr> \<and>
   position (processInput ex_map (setInput ex_player_low msg_right_down)) =
     \<lparr>x_coord = 300, y_coord = 207\<rparr>"
proof -
  let ?p = "setInput ex_player msg_right"
  let ?q = "setInput ex_player_low msg_right_down"
  have h: "position ?p = \<lparr>x_coord = 300, y_coord = 200\<rparr> \<and> speed ?p = 60 \<and>
           currentInput ?p = msg_right \<and> \<not> isTileBlocked ex_map 18 13"
    by (simp add: setInput_def Let_def ex_player_def newPlayer_def emptyInput_def
        ex_map_free_18_13)
  have 1: "position (processInput ex_map ?p) = \<lparr>x_coord = 303, y_coord = 200\<rparr>"
    using processInput_displacement [of ?p ex_map] h by blast
  have c: "candidatePosition ?q = \<lparr>x_coord = 303, y_coord = 210\<rparr>"
    by (simp add: candidatePosition_def Let_def setInput_def ex_player_low_def ex_player_def
        newPlayer_def msg_right_down_def emptyInput_def truthy_flag_def TICK_RATE_def)
  have b: "probeBlocked ex_map \<lparr>x_coord = 303, y_coord = 210\<rparr>"
    by (simp add: probeBlocked_def probeTile_def Let_def isTileBlocked_def ex_map_layers)
  have "position (processInput ex_map ?q) =
          (if probeBlocked ex_map (candidatePosition ?q) then position ?q
           else candidatePosition ?q)"
    using processInput_displacement [of ?q ex_map] by blast
  moreover have "position ?q = \<lparr>x_coord = 300, y_coord = 207\<rparr>"
    by (simp add: setInput_position ex_player_low_def)
  ultimately have 2: "position (processInput ex_map ?q) = \<lparr>x_coord = 300, y_coord = 207\<rparr>"
    using b c by simp
  show ?thesis using h 1 2 b c by simp
qed

lemma blockedInLayers_iff:
  "blockedInLayers c ls x y \<longleftrightarrow> list_ex (\<lambda>l. layerBlocks c l x y) ls"
  by (induction ls) (auto simp: layerBlocks_def)

lemma isTileBlocked_iff:
  "isTileBlocked ml x y \<longleftrightarrow>
     list_ex (\<lambda>l. layerBlocks (collidableTiles ml) l x y) (layers (tilemap ml))"
  by (simp add: isTileBlocked_def blockedInLayers_iff)

lemma processInput_probe:
  "position (processInput ml p) = position p \<or>
   \<not> probeBlocked ml (position (processInput ml p))"
  by (simp add: processInput_position)

lemma playerTick_probe:
  "\<not> probeBlocked ml (position p) \<Longrightarrow> \<not> probeBlocked ml (position (playerTick ml p msgs))"
  using processInput_probe [of ml "foldl setInput p msgs"]
  by (auto simp: playerTick_def foldl_setInput_position)

lemma playerTicks_probe:
  "\<not> probeBlocked ml (position p) \<Longrightarrow> \<not> probeBlocked ml (position (playerTicks ml p ticks))"
  unfolding playerTicks_def
proof (induction ticks arbitrary: p)
  case Nil
  then show ?case by simp
next
  case (Cons t ticks)
  then show ?case by (simp add: playerTick_probe)
qed

lemmas ex_eval = playerTicks_def playerTick_def processInput_def candidatePosition_def Let_def
  setInput_def msg_right_def emptyInput_def truthy_flag_def TICK_RATE_def ex_player_def
  newPlayer_def probeBlocked_def probeTile_def isTileBlocked_def ex_map_layers
  ex_map_collidable tileAt_def positionTile_def

lemma ex_two_ticks:
  "position (playerTicks ex_map ex_player [[msg_right], [msg_right]]) =
     \<lparr>x_coord = 306, y_coord = 200\<rparr>"
  by (simp add: ex_eval)

lemma ex_seven_ticks:
  "position (playerTicks ex_map ex_player (replicate 7 [msg_right])) =
     \<lparr>x_coord = 321, y_coord = 200\<rparr>"
  by (simp add: ex_eval numeral_eq_Suc)

text \<open>
  C3, as the code has it. What \<open>processInput\<close> tests is the probe point
  \<open>(x - 2, y + 16)\<close> of the candidate, not the tile of the position: after
  \<open>processInput\<close> the position is the one before or its probe cell is not blocked, and a
  player whose probe cell is not blocked keeps that through every sequence of input
  messages and ticks. \<open>isTileBlocked\<close> answers \<open>true\<close> exactly when some tile layer does
  not contain the cell or holds a collidable tile there; so a cell outside a tile layer
  of the map is blocked.
\<close>

theorem processInput_probe_invariant:
  "(position (processInput ml p) = position p \<or>
      \<not> probeBlocked ml (position (processInput ml p))) \<and>
   (\<not> probeBlocked ml (position p) \<longrightarrow>
      \<not> probeBlocked ml (position (playerTicks ml p ticks))) \<and>
   (isTileBlocked ml x y \<longleftrightarrow>
      list_ex (\<lambda>l. layerBlocks (collidableTiles ml) l x y) (layers (tilemap ml))) \<and>
   (l \<in> set (layers (tilemap ml)) \<and> layer_type l = ''tilelayer'' \<and>
    (x < 0 \<or> x \<ge> layer_width l \<or> y < 0 \<or> y \<ge> layer_height l) \<longrightarrow> isTileBlocked ml x y)"
proof -
  have "isTileBlocked ml x y"
    if "l \<in> set (layers (tilemap ml))" "layer_type l = ''tilelayer''"
      "x < 0 \<or> x \<ge> layer_width l \<or> y < 0 \<or> y \<ge> layer_height l"
  proof -
    have "layerBlocks (collidableTiles ml) l x y"
      using that by (auto simp: layerBlocks_def)
    then show ?thesis
      using that(1) unfolding isTileBlocked_iff list_ex_iff by blast
  qed
  then show ?thesis
    using processInput_probe [of ml p] playerTicks_probe [of ml p ticks]
      isTileBlocked_iff [of ml x y]
    by blast
qed

theorem processInput_probe_invariant_witness:
  "\<not> probeBlocked ex_map (position ex_player) \<and>
   \<not> probeBlocked ex_map (position (playerTicks ex_map ex_player [[msg_right], [msg_right]])) \<and>
   hd (layers (tilemap ex_map)) \<in> set (layers (tilemap ex_map)) \<and>
   layer_type (hd (layers (tilemap ex_map))) = ''tilelayer'' \<and>
   layer_width (hd (layers (tilemap ex_map))) = 20 \<and>
   isTileBlocked ex_map 20 12"
proof -
  let ?l = "hd (layers (tilemap ex_map))"
  have 1: "\<not> probeBlocked ex_map (position ex_player)"
    by (simp add: ex_eval)
  have 2: "?l \<in> set (layers (tilemap ex_map)) \<and> layer_type ?l = ''tilelayer'' \<and>
           layer_width ?l = 20"
    by (simp add: ex_map_layers)
  have 3: "\<not> probeBlocked ex_map (position (playerTicks ex_map ex_player [[msg_right], [msg_right]]))"
    using processInput_probe_invariant [of ex_map ex_player "[[msg_right], [msg_right]]" 20 12 ?l] 1
    by blast
  have "(20::int) < 0 \<or> 20 \<ge> layer_width ?l \<or> (12::int) < 0 \<or> 12 \<ge> layer_height ?l"
    by (simp add: ex_map_layers)
  then have 4: "isTileBlocked ex_map 20 12"
    using processInput_probe_invariant [of ex_map ex_player "[[msg_right], [msg_right]]" 20 12 ?l] 2
    by blast
  show ?thesis using 1 2 3 4 by simp
qed

text \<open>
  On a map of 20 by 14 tiles whose cell (19, 12) holds a collidable tile, a new player
  (at (300, 200)) sending \<open>{right: true}\<close> for two ticks stands at (306, 200), in the
  collidable cell (19, 12); after seven ticks it stands at (321, 200), in the cell
  (20, 12) outside the map.
\<close>

theorem processInput_position_tile_counterexample:
  "positionTile (position (playerTicks ex_map ex_player [[msg_right], [msg_right]])) = (19, 12) \<and>
   tileAt (layer_data (hd (layers (tilemap ex_map)))) (12 * 20 + 19) = Some 5 \<and>
   5 \<in> collidableTiles ex_map \<and>
   isTileBlocked ex_map 19 12 \<and>
   positionTile (position (playerTicks ex_map ex_player (replicate 7 [msg_right]))) = (20, 12) \<and>
   layer_width (hd (layers (tilemap ex_map))) = 20 \<and>
   isTileBlocked ex_map 20 12"
  by (simp add: ex_two_ticks ex_seven_ticks positionTile_def isTileBlocked_def ex_map_layers
      ex_map_collidable tileAt_def)

section \<open>Properties of the enemy\<close>

subsection \<open>Movement\<close>

lemma setMovement_position: "e_position (setMovement players e m) = e_position e"
  by (simp add: setMovement_def Let_def split: option.splits)

lemma setMovement_alive: "alive (setMovement players e m) = alive e"
  by (simp add: setMovement_def Let_def split: option.splits)

lemma executeAction_position: "e_position (executeAction players e a) = e_position e"
  by (simp add: executeAction_def setMovement_position split: option.splits ActionType.splits)

lemma executeAction_alive: "alive (executeAction players e a) = alive e"
  by (simp add: executeAction_def setMovement_alive split: option.splits ActionType.splits)

lemma move_position:
  "alive e \<Longrightarrow>
     e_position (move players e dt) =
       \<lparr>x_coord = max 0 (min 800 (x_coord (e_position e) + x_coord (velocity e) * (dt / 1000))),
        y_coord = max 0 (min 600 (y_coord (e_position e) + y_coord (velocity e) * (dt / 1000)))\<rparr>"
  by (simp add: move_def Let_def executeAction_position)

lemma findTarget_alive: "alive (findTarget players e) = alive e"
  by (simp add: findTarget_def executeNextAction_def Let_def executeAction_alive
      split: option.splits prod.splits)

lemma performAction_alive: "alive (performAction players e) = alive e"
  by (simp add: performAction_def split: option.splits)

lemma targetingStep_alive: "alive (targetingStep players e) = alive e"
  by (simp add: targetingStep_def findTarget_alive performAction_alive)

text \<open>
  C9. For an enemy that is alive, \<open>move\<close> leaves the position at the integrated one
  clamped to \<open>[0, 800] \<times> [0, 600]\<close>, whatever the elapsed time and the player table; the
  same holds after the whole step of the enemy loop. The map is no argument of \<open>move\<close>:
  the position depends on nothing but the enemy's position, its velocity and the
  elapsed time.
\<close>

theorem move_clamped:
  "alive e \<Longrightarrow>
     e_position (move players e dt) =
       \<lparr>x_coord = max 0 (min 800 (x_coord (e_position e) + x_coord (velocity e) * (dt / 1000))),
        y_coord = max 0 (min 600 (y_coord (e_position e) + y_coord (velocity e) * (dt / 1000)))\<rparr> \<and>
     inArena (e_position (move players e dt)) \<and>
     inArena (e_position (enemyStep players dt e))"
proof -
  assume a: "alive e"
  have 1: "inArena (e_position (move players e' dt))" if "alive e'" for e'
    using that by (simp add: move_position inArena_def)
  have 2: "inArena (e_position (enemyStep players dt e))"
    using a 1 [of "targetingStep players e"] by (simp add: enemyStep_def targetingStep_alive)
  show ?thesis using a 1 [of e] 2 by (simp add: move_position)
qed

theorem move_clamped_witness:
  "alive ex_runaway \<and>
   e_position (move [] ex_runaway 50) = \<lparr>x_coord = 800, y_coord = 0\<rparr> \<and>
   inArena (e_position (move [] ex_runaway 50)) \<and>
   alive ex_enemy \<and>
   e_position (move [] ex_enemy 50) = \<lparr>x_coord = 310, y_coord = 200\<rparr> \<and>
   positionTile (e_position (move [] ex_enemy 50)) = (19, 12) \<and>
   isTileBlocked ex_map 19 12"
proof -
  have a: "alive ex_runaway" "alive ex_enemy"
    by (simp_all add: ex_runaway_def ex_enemy_def newEnemy_def)
  have 1: "e_position (move [] ex_runaway 50) = \<lparr>x_coord = 800, y_coord = 0\<rparr>"
    using move_clamped [OF a(1), of "[]" 50]
    by (simp add: ex_runaway_def ex_enemy_def newEnemy_def)
  have 2: "e_position (move [] ex_enemy 50) = \<lparr>x_coord = 310, y_coord = 200\<rparr>"
    using move_clamped [OF a(2), of "[]" 50]
    by (simp add: ex_enemy_def newEnemy_def zeroVec_def)
  have 3: "isTileBlocked ex_map 19 12"
    by (simp add: isTileBlocked_def ex_map_layers ex_map_collidable tileAt_def)
  have 4: "inArena (e_position (move [] ex_runaway 50))"
    using move_clamped [OF a(1), of "[]" 50] by blast
  show ?thesis
    using a 1 2 3 4 by (simp add: positionTile_def)
qed

subsection \<open>The behaviour cycle\<close>

lemma js_rem_nonneg: "0 \<le> a \<Longrightarrow> js_rem a b = a mod \<bar>b\<bar>"
  by (cases "a = 0") (simp_all add: js_rem_def)

lemma cycle_length: "int (length actionCycle) = 5"
  by (simp add: actionCycle_def)

lemma setMovement_no_target:
  "\<not> truthy_str (targetPlayerId e) \<Longrightarrow> setMovement players e m = e"
  by (simp add: setMovement_def)

lemma setMovement_target_absent:
  "map_of players (the (targetPlayerId e)) = None \<Longrightarrow> setMovement players e m = e"
  by (simp add: setMovement_def)

lemma setMovement_with_target:
  "targetInTable players e \<Longrightarrow>
     e_action (setMovement players e m) = m \<and>
     actionTimer (setMovement players e m) = (if m = Hop then MOVE_DURATION else LONG_JUMP_DURATION) \<and>
     targetPlayerId (setMovement players e m) = targetPlayerId e \<and>
     currentActionIndex (setMovement players e m) = currentActionIndex e"
  by (auto simp: setMovement_def targetInTable_def Let_def split: option.splits)

lemma executeAction_target: "targetPlayerId (executeAction players e a) = targetPlayerId e"
  by (simp add: executeAction_def setMovement_def Let_def split: option.splits ActionType.splits)

lemma executeAction_index: "currentActionIndex (executeAction players e a) = currentActionIndex e"
  by (simp add: executeAction_def setMovement_def Let_def split: option.splits ActionType.splits)

lemma cycleAt_cases:
  "cycleAt i = (if i = 0 then Some Hop else if i = 2 then Some LongJump
                else if i = 1 \<or> i = 3 \<or> i = 4 then Some Idle else None)"
proof -
  have "0 \<le> i \<and> i < 5 \<longleftrightarrow> i = 0 \<or> i = 1 \<or> i = 2 \<or> i = 3 \<or> i = 4" by auto
  then show ?thesis
    by (auto simp: cycleAt_def actionCycle_def)
qed

lemma move_running:
  "alive e \<Longrightarrow> 0 < actionTimer e - dt \<Longrightarrow>
     currentActionIndex (move players e dt) = currentActionIndex e \<and>
     actionTimer (move players e dt) = actionTimer e - dt \<and>
     e_action (move players e dt) = e_action e \<and>
     velocity (move players e dt) = velocity e"
  by (simp add: move_def Let_def)

lemma move_expired:
  "alive e \<Longrightarrow> actionTimer e - dt \<le> 0 \<Longrightarrow> 0 \<le> currentActionIndex e \<Longrightarrow>
     \<exists>pos. move players e dt =
       executeAction players
         (e\<lparr>e_position := pos, actionTimer := actionTimer e - dt,
            currentActionIndex := (currentActionIndex e + 1) mod 5\<rparr>)
         (cycleAt ((currentActionIndex e + 1) mod 5))"
  by (simp add: move_def Let_def js_rem_nonneg cycle_length) blast

lemma executeAction_idle:
  "executeAction players e (Some Idle) =
     e\<lparr>velocity := zeroVec, e_action := Idle, actionTimer := PAUSE_DURATION\<rparr>"
  by (simp add: executeAction_def)

lemma executeAction_jump_no_target:
  "\<not> truthy_str (targetPlayerId e) \<Longrightarrow> a = Some Hop \<or> a = Some LongJump \<Longrightarrow>
     executeAction players e a = e"
  by (auto simp: executeAction_def setMovement_no_target)

lemma executeAction_jump_target:
  "targetInTable players e \<Longrightarrow> m = Hop \<or> m = LongJump \<Longrightarrow>
     e_action (executeAction players e (Some m)) = m \<and>
     actionTimer (executeAction players e (Some m)) =
       (if m = Hop then MOVE_DURATION else LONG_JUMP_DURATION)"
  using setMovement_with_target [of players e m] by (auto simp: executeAction_def)

lemma move_target: "targetPlayerId (move players e dt) = targetPlayerId e"
  by (simp add: move_def Let_def executeAction_target)

lemma move_alive: "alive (move players e dt) = alive e"
  by (simp add: move_def Let_def executeAction_alive)

lemma move_idle_no_target:
  "\<not> truthy_str (targetPlayerId e) \<Longrightarrow> e_action e = Idle \<Longrightarrow>
     e_action (move players e dt) = Idle"
  by (simp add: move_def Let_def executeAction_def setMovement_no_target
      split: option.splits ActionType.splits)

lemma targetingStep_empty:
  "\<not> truthy_str (targetPlayerId e) \<Longrightarrow> targetingStep [] e = e"
  by (simp add: targetingStep_def findTarget_def hasLiveTarget_def performAction_def)

lemma enemyTicks_idle:
  "\<not> truthy_str (targetPlayerId e) \<Longrightarrow> e_action e = Idle \<Longrightarrow>
     e_action (enemyTicks [] dt n e) = Idle"
proof (induction n arbitrary: e)
  case 0
  then show ?case by simp
next
  case (Suc n)
  let ?e = "enemyStep [] dt e"
  have "\<not> truthy_str (targetPlayerId ?e) \<and> e_action ?e = Idle"
    using Suc.prems
    by (simp add: enemyStep_def targetingStep_empty move_target move_idle_no_target)
  then show ?case using Suc.IH [of ?e] by simp
qed

text \<open>
  C5, as the code has it. While the timer stays above zero \<open>move\<close> only counts it down.
  When it reaches zero or less, the cycle index advances modulo 5 through
  \<open>[hop, idle, longJump, idle, idle]\<close>; at an idle slot the enemy becomes idle with zero
  velocity and a timer of 1000 ms; at a hop or long-jump slot an enemy without a target
  keeps its action, velocity and timer (\<open>setMovement\<close> returns at once), so the slot
  lasts a single tick; with a target in the player table the enemy enters hop with
  1000 ms or long jump with 600 ms. An idle enemy without a target, with no player in
  the table, is idle after any number of ticks.
\<close>

theorem move_cycle:
  assumes "alive e" and "0 \<le> currentActionIndex e" and "e' = move players e dt"
  shows
    "(0 < actionTimer e - dt \<longrightarrow>
        currentActionIndex e' = currentActionIndex e \<and> actionTimer e' = actionTimer e - dt \<and>
        e_action e' = e_action e \<and> velocity e' = velocity e) \<and>
     (actionTimer e - dt \<le> 0 \<longrightarrow>
        currentActionIndex e' = (currentActionIndex e + 1) mod 5 \<and>
        (cycleAt (currentActionIndex e') = Some Idle \<longrightarrow>
           e_action e' = Idle \<and> velocity e' = zeroVec \<and> actionTimer e' = PAUSE_DURATION) \<and>
        (cycleAt (currentActionIndex e') \<noteq> Some Idle \<and> \<not> truthy_str (targetPlayerId e) \<longrightarrow>
           e_action e' = e_action e \<and> velocity e' = velocity e \<and>
           actionTimer e' = actionTimer e - dt) \<and>
        (cycleAt (currentActionIndex e') = Some Hop \<and> targetInTable players e \<longrightarrow>
           e_action e' = Hop \<and> actionTimer e' = MOVE_DURATION) \<and>
        (cycleAt (currentActionIndex e') = Some LongJump \<and> targetInTable players e \<longrightarrow>
           e_action e' = LongJump \<and> actionTimer e' = LONG_JUMP_DURATION)) \<and>
     (\<not> truthy_str (targetPlayerId e) \<and> e_action e = Idle \<longrightarrow>
        e_action (enemyTicks [] dt n e) = Idle)"
proof -
  let ?i = "(currentActionIndex e + 1) mod 5"
  have running: "currentActionIndex e' = currentActionIndex e \<and> actionTimer e' = actionTimer e - dt \<and>
        e_action e' = e_action e \<and> velocity e' = velocity e" if "0 < actionTimer e - dt"
    using move_running [OF assms(1) that, of players] assms(3) by simp
  obtain pos where exp0: "actionTimer e - dt \<le> 0 \<Longrightarrow>
      e' = executeAction players
             (e\<lparr>e_position := pos, actionTimer := actionTimer e - dt,
                currentActionIndex := ?i\<rparr>) (cycleAt ?i)"
    using move_expired [OF assms(1) _ assms(2), of dt players] assms(3)
    by (cases "actionTimer e - dt \<le> 0") auto
  let ?e1 = "e\<lparr>e_position := pos, actionTimer := actionTimer e - dt, currentActionIndex := ?i\<rparr>"
  have exp: "e' = executeAction players ?e1 (cycleAt ?i)" if "actionTimer e - dt \<le> 0"
    using exp0 [OF that] .
  have idx: "currentActionIndex e' = ?i" if "actionTimer e - dt \<le> 0"
    using exp [OF that] by (simp add: executeAction_index)
  have idle: "e_action e' = Idle \<and> velocity e' = zeroVec \<and> actionTimer e' = PAUSE_DURATION"
    if "actionTimer e - dt \<le> 0" "cycleAt (currentActionIndex e') = Some Idle"
    using exp [OF that(1)] idx [OF that(1)] that(2) by (simp add: executeAction_idle)
  have range: "0 \<le> ?i \<and> ?i < 5" by simp
  have skip: "e_action e' = e_action e \<and> velocity e' = velocity e \<and>
           actionTimer e' = actionTimer e - dt"
    if "actionTimer e - dt \<le> 0" "cycleAt (currentActionIndex e') \<noteq> Some Idle"
      "\<not> truthy_str (targetPlayerId e)"
  proof -
    have "cycleAt ?i = Some Hop \<or> cycleAt ?i = Some LongJump"
      using that(2) idx [OF that(1)] range by (auto simp: cycleAt_cases)
    moreover have "\<not> truthy_str (targetPlayerId ?e1)" using that(3) by simp
    ultimately have "executeAction players ?e1 (cycleAt ?i) = ?e1"
      by (rule executeAction_jump_no_target [rotated])
    then show ?thesis using exp [OF that(1)] by simp
  qed
  have jump: "e_action e' = m \<and> actionTimer e' = (if m = Hop then MOVE_DURATION else LONG_JUMP_DURATION)"
    if "actionTimer e - dt \<le> 0" "cycleAt (currentActionIndex e') = Some m" "m = Hop \<or> m = LongJump"
      "targetInTable players e" for m
  proof -
    have "targetInTable players ?e1" using that(4) by (simp add: targetInTable_def)
    then show ?thesis
      using executeAction_jump_target [of players ?e1 m] that(2,3) exp [OF that(1)] idx [OF that(1)]
      by simp
  qed
  have hop: "e_action e' = Hop \<and> actionTimer e' = MOVE_DURATION"
    if "actionTimer e - dt \<le> 0" "cycleAt (currentActionIndex e') = Some Hop" "targetInTable players e"
    using jump [of Hop] that by simp
  have lj: "e_action e' = LongJump \<and> actionTimer e' = LONG_JUMP_DURATION"
    if "actionTimer e - dt \<le> 0" "cycleAt (currentActionIndex e') = Some LongJump" "targetInTable players e"
    using jump [of LongJump] that by simp
  show ?thesis
    using running idx idle skip hop lj enemyTicks_idle [of e dt n] by blast
qed

lemma ex_waiting_facts:
  "alive ex_waiting" "0 \<le> currentActionIndex ex_waiting" "\<not> truthy_str (targetPlayerId ex_waiting)"
  "actionTimer ex_waiting - 50 \<le> 0" "currentActionIndex ex_waiting = 1" "e_action ex_waiting = Idle"
  "actionTimer ex_waiting = 50"
  by (simp_all add: ex_waiting_def ex_enemy_def newEnemy_def truthy_str_def)

lemma ex_hunter_due_facts:
  "alive ex_hunter_due" "0 \<le> currentActionIndex ex_hunter_due"
  "targetInTable ex_players ex_hunter_due" "actionTimer ex_hunter_due - 50 \<le> 0"
  "currentActionIndex ex_hunter_due = 1"
  by (simp_all add: ex_hunter_due_def ex_hunter_def ex_enemy_def newEnemy_def targetInTable_def
      truthy_str_def ex_players_def)

lemma ex_hunter_facts:
  "alive ex_hunter" "0 \<le> currentActionIndex ex_hunter" "0 < actionTimer ex_hunter - 50"
  "actionTimer ex_hunter = 400" "e_action ex_hunter = Hop"
  by (simp_all add: ex_hunter_def ex_enemy_def newEnemy_def)

lemma ex_enemy_facts:
  "alive ex_enemy" "0 \<le> currentActionIndex ex_enemy" "actionTimer ex_enemy - 50 \<le> 0"
  "currentActionIndex ex_enemy = 0"
  by (simp_all add: ex_enemy_def newEnemy_def)

theorem move_cycle_witness:
  "alive ex_waiting \<and> 0 \<le> currentActionIndex ex_waiting \<and>
   currentActionIndex (move [] ex_waiting 50) = 2 \<and>
   e_action (move [] ex_waiting 50) = Idle \<and>
   actionTimer (move [] ex_waiting 50) = 0 \<and>
   e_action (enemyTicks [] 50 100 ex_waiting) = Idle \<and>
   alive ex_hunter_due \<and> targetInTable ex_players ex_hunter_due \<and>
   currentActionIndex (move ex_players ex_hunter_due 50) = 2 \<and>
   e_action (move ex_players ex_hunter_due 50) = LongJump \<and>
   actionTimer (move ex_players ex_hunter_due 50) = LONG_JUMP_DURATION \<and>
   currentActionIndex (move [] ex_enemy 50) = 1 \<and>
   e_action (move [] ex_enemy 50) = Idle \<and>
   actionTimer (move [] ex_enemy 50) = PAUSE_DURATION \<and>
   actionTimer (move ex_players ex_hunter 50) = 350 \<and>
   e_action (move ex_players ex_hunter 50) = Hop"
proof -
  let ?e' = "move [] ex_waiting 50"
  note th = move_cycle [where e = ex_waiting and players = "[]" and dt = 50 and n = 100,
      OF ex_waiting_facts(1,2) refl]
  have 1: "currentActionIndex ?e' = 2"
    using th ex_waiting_facts(4,5) by simp
  have "cycleAt (currentActionIndex ?e') \<noteq> Some Idle"
    by (simp add: 1 cycleAt_cases)
  then have 2: "e_action ?e' = Idle \<and> actionTimer ?e' = 0"
    using th ex_waiting_facts(3,4,6,7) by simp
  have 3: "e_action (enemyTicks [] 50 100 ex_waiting) = Idle"
    using th ex_waiting_facts(3,6) by blast
  let ?h' = "move ex_players ex_hunter_due 50"
  note th2 = move_cycle [where e = ex_hunter_due and players = ex_players and dt = 50 and n = 0,
      OF ex_hunter_due_facts(1,2) refl]
  have 4: "currentActionIndex ?h' = 2"
    using th2 ex_hunter_due_facts(4,5) by simp
  have "cycleAt (currentActionIndex ?h') = Some LongJump"
    by (simp add: 4 cycleAt_cases)
  then have 5: "e_action ?h' = LongJump \<and> actionTimer ?h' = LONG_JUMP_DURATION"
    using th2 ex_hunter_due_facts(3,4) by blast
  let ?n' = "move [] ex_enemy 50"
  note th3 = move_cycle [where e = ex_enemy and players = "[]" and dt = 50 and n = 0,
      OF ex_enemy_facts(1,2) refl]
  have 6: "currentActionIndex ?n' = 1"
    using th3 ex_enemy_facts(3,4) by simp
  have "cycleAt (currentActionIndex ?n') = Some Idle"
    by (simp add: 6 cycleAt_cases)
  then have 7: "e_action ?n' = Idle \<and> actionTimer ?n' = PAUSE_DURATION"
    using th3 ex_enemy_facts(3) by blast
  note th4 = move_cycle [where e = ex_hunter and players = ex_players and dt = 50 and n = 0,
      OF ex_hunter_facts(1,2) refl]
  have 8: "actionTimer (move ex_players ex_hunter 50) = 350 \<and>
           e_action (move ex_players ex_hunter 50) = Hop"
    using th4 ex_hunter_facts(3,4,5) by simp
  show ?thesis
    using 1 2 3 4 5 6 7 8 ex_waiting_facts(1,2) ex_hunter_due_facts(1,3) by simp
qed

text \<open>
  An idle enemy without a target, in the idle slot 1 with 50 ms left, ticks 50 ms: the
  index is 2, the long-jump slot, but the action is still idle and the timer is 0, not
  600 ms; the next tick moves on to slot 3.
\<close>

theorem move_no_target_counterexample:
  "targetPlayerId ex_waiting = None \<and> alive ex_waiting \<and>
   actionTimer ex_waiting - 50 \<le> 0 \<and>
   currentActionIndex (move [] ex_waiting 50) = 2 \<and>
   actionCycle ! 2 = LongJump \<and>
   e_action (move [] ex_waiting 50) \<noteq> LongJump \<and>
   actionTimer (move [] ex_waiting 50) \<noteq> LONG_JUMP_DURATION \<and>
   currentActionIndex (move [] (move [] ex_waiting 50) 50) = 3"
  by (simp add: ex_waiting_def ex_enemy_def newEnemy_def move_def Let_def js_rem_def
      actionCycle_def cycleAt_def executeAction_def setMovement_def truthy_str_def
      LONG_JUMP_DURATION_def PAUSE_DURATION_def zeroVec_def)

subsection \<open>Targeting\<close>

lemma scanPlayers_append:
  "scanPlayers pos (ps @ qs) best = scanPlayers pos qs (scanPlayers pos ps best)"
  by (induction ps arbitrary: best) (auto simp: Let_def)

lemma scanPlayers_snoc:
  "scanPlayers pos (ps @ [x]) best =
     (let r = scanPlayers pos ps best in
      if (case r of None \<Rightarrow> True | Some (c, m) \<Rightarrow> playerDistance pos x < m) \<and>
         playerDistance pos x \<le> detectionRadius
      then Some (fst x, playerDistance pos x) else r)"
  by (cases x; cases "scanPlayers pos ps best")
    (auto simp: scanPlayers_append Let_def playerDistance_def)

lemma list_all_take_iff:
  "i \<le> length ps \<Longrightarrow> list_all P (take i ps) \<longleftrightarrow> (\<forall>j<i. P (ps ! j))"
  by (simp add: list_all_length)

lemma list_all_drop_iff:
  "list_all P (drop (Suc i) ps) \<longleftrightarrow> (\<forall>j. i < j \<and> j < length ps \<longrightarrow> P (ps ! j))"
proof
  assume a: "list_all P (drop (Suc i) ps)"
  show "\<forall>j. i < j \<and> j < length ps \<longrightarrow> P (ps ! j)"
  proof (intro allI impI)
    fix j assume j: "i < j \<and> j < length ps"
    then have "j - Suc i < length (drop (Suc i) ps)" by (simp, arith)
    then have "P (drop (Suc i) ps ! (j - Suc i))"
      using a by (simp add: list_all_length)
    moreover have "Suc i \<le> length ps" using j by arith
    ultimately show "P (ps ! j)" using j by (simp add: nth_drop)
  qed
next
  assume a: "\<forall>j. i < j \<and> j < length ps \<longrightarrow> P (ps ! j)"
  show "list_all P (drop (Suc i) ps)"
    unfolding list_all_length
  proof (intro allI impI)
    fix n assume "n < length (drop (Suc i) ps)"
    then have b: "i < Suc i + n \<and> Suc i + n < length ps" by auto
    then have "P (ps ! (Suc i + n))" using a by blast
    moreover have "Suc i \<le> length ps" using b by arith
    ultimately show "P (drop (Suc i) ps ! n)" by (simp add: nth_drop)
  qed
qed

lemma firstNearestAt_index:
  "firstNearestAt pos ps i \<longleftrightarrow>
     i < length ps \<and> playerDistance pos (ps ! i) \<le> detectionRadius \<and>
     (\<forall>j<i. playerDistance pos (ps ! i) < playerDistance pos (ps ! j)) \<and>
     (\<forall>j. i < j \<and> j < length ps \<longrightarrow> playerDistance pos (ps ! i) \<le> playerDistance pos (ps ! j))"
proof (cases "i < length ps")
  case True
  then show ?thesis
    unfolding firstNearestAt_def list_all_drop_iff
    by (simp add: list_all_take_iff)
next
  case False
  then show ?thesis by (simp add: firstNearestAt_def)
qed


lemma firstNearestAt_least:
  assumes "firstNearestAt pos ps i" and "j < length ps"
  shows "playerDistance pos (ps ! i) \<le> playerDistance pos (ps ! j)"
proof -
  consider "j < i" | "j = i" | "i < j" by arith
  then show ?thesis
  proof cases
    case 1
    then show ?thesis using assms(1) unfolding firstNearestAt_index by fastforce
  next
    case 2
    then show ?thesis by simp
  next
    case 3
    then show ?thesis using assms unfolding firstNearestAt_index by blast
  qed
qed

lemma firstNearestAt_snoc_new:
  assumes "\<forall>j<length ps. playerDistance pos x < playerDistance pos (ps ! j)"
    and "playerDistance pos x \<le> detectionRadius"
  shows "firstNearestAt pos (ps @ [x]) (length ps)"
  using assms unfolding firstNearestAt_index by (simp add: nth_append)

lemma firstNearestAt_snoc_keep:
  assumes "firstNearestAt pos ps i"
    and "playerDistance pos (ps ! i) \<le> playerDistance pos x"
  shows "firstNearestAt pos (ps @ [x]) i"
  using assms unfolding firstNearestAt_index by (auto simp: nth_append)

lemma firstNearestAt_unique:
  assumes "firstNearestAt pos ps i" and "firstNearestAt pos ps j"
  shows "i = j"
proof (rule ccontr)
  assume "i \<noteq> j"
  then consider "i < j" | "j < i" by arith
  then show False
  proof cases
    case 1
    have "playerDistance pos (ps ! j) < playerDistance pos (ps ! i)"
      using assms(2) 1 unfolding firstNearestAt_index by blast
    moreover have "playerDistance pos (ps ! i) \<le> playerDistance pos (ps ! j)"
      using firstNearestAt_least [OF assms(1)] assms(2) unfolding firstNearestAt_index by blast
    ultimately show False by simp
  next
    case 2
    have "playerDistance pos (ps ! i) < playerDistance pos (ps ! j)"
      using assms(1) 2 unfolding firstNearestAt_index by blast
    moreover have "playerDistance pos (ps ! j) \<le> playerDistance pos (ps ! i)"
      using firstNearestAt_least [OF assms(2)] assms(1) unfolding firstNearestAt_index by blast
    ultimately show False by simp
  qed
qed


lemma scanPlayers_spec:
  "case scanPlayers pos ps None of
     None \<Rightarrow> \<forall>j<length ps. detectionRadius < playerDistance pos (ps ! j)
   | Some (pid, d) \<Rightarrow>
       \<exists>i. firstNearestAt pos ps i \<and> fst (ps ! i) = pid \<and> d = playerDistance pos (ps ! i)"
proof (induction ps rule: rev_induct)
  case Nil
  then show ?case by simp
next
  case (snoc x ps)
  show ?case
  proof (cases "scanPlayers pos ps None")
    case None
    then have far: "\<forall>j<length ps. detectionRadius < playerDistance pos (ps ! j)"
      using snoc by simp
    show ?thesis
    proof (cases "playerDistance pos x \<le> detectionRadius")
      case True
      have "\<forall>j<length ps. playerDistance pos x < playerDistance pos (ps ! j)"
        using far True by fastforce
      then have "firstNearestAt pos (ps @ [x]) (length ps)"
        using True by (rule firstNearestAt_snoc_new)
      moreover have "scanPlayers pos (ps @ [x]) None = Some (fst x, playerDistance pos x)"
        using None True by (simp add: scanPlayers_snoc)
      ultimately show ?thesis by auto
    next
      case False
      then have "scanPlayers pos (ps @ [x]) None = None"
        using None by (simp add: scanPlayers_snoc)
      moreover have "\<forall>j<length (ps @ [x]). detectionRadius < playerDistance pos ((ps @ [x]) ! j)"
        using far False by (auto simp: nth_append less_Suc_eq)
      ultimately show ?thesis by simp
    qed
  next
    case (Some r)
    obtain pid d where r: "r = (pid, d)" by (cases r)
    obtain i where i: "firstNearestAt pos ps i" "fst (ps ! i) = pid"
      "d = playerDistance pos (ps ! i)"
      using snoc Some r by auto
    have dr: "d \<le> detectionRadius" using i unfolding firstNearestAt_index by simp
    have il: "i < length ps" using i unfolding firstNearestAt_index by simp
    show ?thesis
    proof (cases "playerDistance pos x < d \<and> playerDistance pos x \<le> detectionRadius")
      case True
      have "\<forall>j<length ps. playerDistance pos x < playerDistance pos (ps ! j)"
        using firstNearestAt_least [OF i(1)] True i(3) by fastforce
      then have "firstNearestAt pos (ps @ [x]) (length ps)"
        using True by (simp add: firstNearestAt_snoc_new)
      moreover have "scanPlayers pos (ps @ [x]) None = Some (fst x, playerDistance pos x)"
        using Some r True by (simp add: scanPlayers_snoc)
      ultimately show ?thesis by auto
    next
      case False
      then have "playerDistance pos (ps ! i) \<le> playerDistance pos x"
        using dr i(3) by auto
      with i(1) have "firstNearestAt pos (ps @ [x]) i"
        by (rule firstNearestAt_snoc_keep)
      moreover have "scanPlayers pos (ps @ [x]) None = Some (pid, d)"
        using Some r False by (auto simp: scanPlayers_snoc)
      moreover have "(ps @ [x]) ! i = ps ! i" using il by (simp add: nth_append)
      ultimately show ?thesis using i(2,3) by auto
    qed
  qed
qed

lemma scanPlayers_None_iff:
  "scanPlayers pos ps None = None \<longleftrightarrow>
     list_all (\<lambda>q. detectionRadius < playerDistance pos q) ps"
proof
  assume "scanPlayers pos ps None = None"
  then show "list_all (\<lambda>q. detectionRadius < playerDistance pos q) ps"
    using scanPlayers_spec [where pos = pos and ps = ps] by (simp add: list_all_length)
next
  assume far: "list_all (\<lambda>q. detectionRadius < playerDistance pos q) ps"
  show "scanPlayers pos ps None = None"
  proof (cases "scanPlayers pos ps None")
    case None
    then show ?thesis .
  next
    case (Some r)
    then obtain i where "firstNearestAt pos ps i"
      using scanPlayers_spec [where pos = pos and ps = ps] by (cases r) auto
    then have "i < length ps" "playerDistance pos (ps ! i) \<le> detectionRadius"
      unfolding firstNearestAt_index by simp_all
    then show ?thesis using far by (auto simp: list_all_length)
  qed
qed

lemma scanPlayers_Some_iff:
  "scanPlayers pos ps None = Some (pid, d) \<longleftrightarrow>
     (\<exists>i. firstNearestAt pos ps i \<and> fst (ps ! i) = pid \<and> d = playerDistance pos (ps ! i))"
proof
  assume "scanPlayers pos ps None = Some (pid, d)"
  then show "\<exists>i. firstNearestAt pos ps i \<and> fst (ps ! i) = pid \<and> d = playerDistance pos (ps ! i)"
    using scanPlayers_spec [where pos = pos and ps = ps] by simp
next
  assume "\<exists>i. firstNearestAt pos ps i \<and> fst (ps ! i) = pid \<and> d = playerDistance pos (ps ! i)"
  then obtain i where i: "firstNearestAt pos ps i" "fst (ps ! i) = pid"
    "d = playerDistance pos (ps ! i)" by blast
  have il: "i < length ps" "playerDistance pos (ps ! i) \<le> detectionRadius"
    using i(1) unfolding firstNearestAt_index by simp_all
  show "scanPlayers pos ps None = Some (pid, d)"
  proof (cases "scanPlayers pos ps None")
    case None
    then have "list_all (\<lambda>q. detectionRadius < playerDistance pos q) ps"
      by (simp add: scanPlayers_None_iff)
    then show ?thesis using il by (auto simp: list_all_length)
  next
    case (Some r)
    obtain pid' d' where r: "r = (pid', d')" by (cases r)
    obtain j where j: "firstNearestAt pos ps j" "fst (ps ! j) = pid'"
      "d' = playerDistance pos (ps ! j)"
      using scanPlayers_spec [where pos = pos and ps = ps] Some r by auto
    have "i = j" using i(1) j(1) by (rule firstNearestAt_unique)
    then show ?thesis using Some r i j by simp
  qed
qed

lemma scanPlayers_key:
  "scanPlayers pos ps None = Some (pid, d) \<Longrightarrow> map_of ps pid \<noteq> None"
proof -
  assume "scanPlayers pos ps None = Some (pid, d)"
  then obtain i where "firstNearestAt pos ps i" "fst (ps ! i) = pid"
    unfolding scanPlayers_Some_iff by blast
  then have "i < length ps" "fst (ps ! i) = pid"
    unfolding firstNearestAt_index by simp_all
  then have "pid \<in> fst ` set ps" by (metis nth_mem image_eqI)
  then show ?thesis by (simp add: map_of_eq_None_iff)
qed


lemma js_rem_zero: "js_rem 0 b = 0"
  by (simp add: js_rem_def)

lemma findTarget_live: "hasLiveTarget players e \<Longrightarrow> findTarget players e = e"
  by (simp add: findTarget_def)

lemma findTarget_none:
  "\<not> hasLiveTarget players e \<Longrightarrow> scanPlayers (e_position e) players None = None \<Longrightarrow>
     findTarget players e = e"
  by (simp add: findTarget_def)

lemma findTarget_acquire:
  assumes "\<not> hasLiveTarget players e"
    and "scanPlayers (e_position e) players None = Some (pid, d)"
    and "pid \<noteq> []"
  shows "targetPlayerId (findTarget players e) = Some pid \<and>
         currentActionIndex (findTarget players e) = 0 \<and>
         e_action (findTarget players e) = Hop \<and>
         actionTimer (findTarget players e) = MOVE_DURATION"
proof -
  let ?e2 = "e\<lparr>targetPlayerId := Some pid, currentActionIndex := 0\<rparr>"
  have "findTarget players e = setMovement players ?e2 Hop"
    using assms by (simp add: findTarget_def executeNextAction_def js_rem_zero cycleAt_cases
        executeAction_def)
  moreover have "targetInTable players ?e2"
    using scanPlayers_key [OF assms(2)] assms(3) by (simp add: targetInTable_def truthy_str_def)
  ultimately show ?thesis
    using setMovement_with_target [of players ?e2 Hop] by simp
qed

lemma sqrt_100: "sqrt 100 = 10"
  by (rule real_sqrt_unique) simp_all

lemma sqrt_40000: "sqrt 40000 = 200"
  by (rule real_sqrt_unique) simp_all

lemma ex_enemy_position: "e_position ex_enemy = \<lparr>x_coord = 310, y_coord = 200\<rparr>"
  by (simp add: ex_enemy_def newEnemy_def)

lemma ex_distance_a: "playerDistance \<lparr>x_coord = 310, y_coord = 200\<rparr> (k, ex_player_a) = 10"
  by (simp add: playerDistance_def getDistance_def ex_player_a_def newPlayer_def sqrt_100)

lemma ex_distance_b: "playerDistance \<lparr>x_coord = 310, y_coord = 200\<rparr> (k, ex_player_b) = 10"
  by (simp add: playerDistance_def getDistance_def ex_player_b_def newPlayer_def sqrt_100)

lemma ex_hunter_target: "targetPlayerId ex_hunter = Some ''p1''"
  by (simp add: ex_hunter_def)

lemma ex_hunter_live: "hasLiveTarget ex_players ex_hunter"
  by (simp add: hasLiveTarget_def ex_hunter_def ex_players_def truthy_str_def ex_player_def
      newPlayer_def)

lemma ex_enemy_idle: "\<not> hasLiveTarget players ex_enemy"
  by (simp add: hasLiveTarget_def ex_enemy_def newEnemy_def truthy_str_def)

lemma ex_scan_ba: "scanPlayers (e_position ex_enemy) ex_table_ba None = Some (''b'', 10)"
  using ex_distance_a ex_distance_b
  by (simp add: ex_enemy_position ex_table_ba_def playerDistance_def detectionRadius_def)

lemma ex_scan_ab: "scanPlayers (e_position ex_enemy) ex_table_ab None = Some (''a'', 10)"
  using ex_distance_a ex_distance_b
  by (simp add: ex_enemy_position ex_table_ab_def playerDistance_def detectionRadius_def)

lemma firstNearestAliveAt_index:
  "firstNearestAliveAt pos ps i \<longleftrightarrow>
     i < length ps \<and> isAlive (snd (ps ! i)) \<and> playerDistance pos (ps ! i) \<le> detectionRadius \<and>
     (\<forall>j<i. isAlive (snd (ps ! j)) \<longrightarrow> playerDistance pos (ps ! i) < playerDistance pos (ps ! j)) \<and>
     (\<forall>j. i < j \<and> j < length ps \<longrightarrow>
          isAlive (snd (ps ! j)) \<longrightarrow> playerDistance pos (ps ! i) \<le> playerDistance pos (ps ! j))"
proof (cases "i < length ps")
  case True
  then show ?thesis
    unfolding firstNearestAliveAt_def list_all_drop_iff
    by (simp add: list_all_take_iff)
next
  case False
  then show ?thesis by (simp add: firstNearestAliveAt_def)
qed

lemma inRangeAlive_nth:
  "inRangeAlive pos ps \<Longrightarrow> j < length ps \<Longrightarrow> playerDistance pos (ps ! j) \<le> detectionRadius \<Longrightarrow>
     isAlive (snd (ps ! j)) \<and> fst (ps ! j) \<noteq> []"
  by (simp add: inRangeAlive_def list_all_length)

lemma firstNearestAlive_iff:
  assumes "inRangeAlive pos ps"
  shows "firstNearestAliveAt pos ps i \<longleftrightarrow> firstNearestAt pos ps i"
proof
  assume a: "firstNearestAliveAt pos ps i"
  have far: "playerDistance pos (ps ! i) < playerDistance pos (ps ! j)"
    if "j < length ps" "\<not> isAlive (snd (ps ! j))" for j
  proof -
    have "\<not> playerDistance pos (ps ! j) \<le> detectionRadius"
      using inRangeAlive_nth [OF assms that(1)] that(2) by blast
    then show ?thesis using a unfolding firstNearestAliveAt_index by simp
  qed
  have il: "i < length ps" using a unfolding firstNearestAliveAt_index by simp
  have 1: "playerDistance pos (ps ! i) < playerDistance pos (ps ! j)" if "j < i" for j
  proof (cases "isAlive (snd (ps ! j))")
    case True
    then show ?thesis using a that unfolding firstNearestAliveAt_index by blast
  next
    case False
    then show ?thesis using far [of j] that il by simp
  qed
  have 2: "playerDistance pos (ps ! i) \<le> playerDistance pos (ps ! j)"
    if "i < j \<and> j < length ps" for j
  proof (cases "isAlive (snd (ps ! j))")
    case True
    then show ?thesis using a that unfolding firstNearestAliveAt_index by blast
  next
    case False
    then show ?thesis using far [of j] that by simp
  qed
  show "firstNearestAt pos ps i"
    unfolding firstNearestAt_index using a 1 2 unfolding firstNearestAliveAt_index by blast
next
  assume a: "firstNearestAt pos ps i"
  then have "i < length ps" "playerDistance pos (ps ! i) \<le> detectionRadius"
    unfolding firstNearestAt_index by simp_all
  then have "isAlive (snd (ps ! i))"
    using inRangeAlive_nth [OF assms] by blast
  then show "firstNearestAliveAt pos ps i"
    using a unfolding firstNearestAt_index firstNearestAliveAt_index by blast
qed

lemma noneAliveInRange_iff:
  assumes "inRangeAlive pos ps"
  shows "noneAliveInRange pos ps \<longleftrightarrow> list_all (\<lambda>q. detectionRadius < playerDistance pos q) ps"
  using assms unfolding noneAliveInRange_def inRangeAlive_def list_all_length
  by (metis not_le)

lemma findTarget_none_alive:
  assumes "inRangeAlive (e_position e) players" and "\<not> hasLiveTarget players e"
    and "noneAliveInRange (e_position e) players"
  shows "findTarget players e = e"
  using assms noneAliveInRange_iff [OF assms(1)] scanPlayers_None_iff [of "e_position e" players]
    findTarget_none [of players e]
  by blast

lemma findTarget_acquire_alive:
  assumes "inRangeAlive (e_position e) players" and "\<not> hasLiveTarget players e"
    and "firstNearestAliveAt (e_position e) players i"
  shows "targetPlayerId (findTarget players e) = Some (fst (players ! i)) \<and>
         currentActionIndex (findTarget players e) = 0 \<and>
         e_action (findTarget players e) = Hop \<and>
         actionTimer (findTarget players e) = MOVE_DURATION"
proof -
  have f: "firstNearestAt (e_position e) players i"
    using assms(1,3) by (simp add: firstNearestAlive_iff)
  then have "scanPlayers (e_position e) players None =
               Some (fst (players ! i), playerDistance (e_position e) (players ! i))"
    unfolding scanPlayers_Some_iff by blast
  moreover have "fst (players ! i) \<noteq> []"
    using f inRangeAlive_nth [OF assms(1), of i] unfolding firstNearestAt_index by blast
  ultimately show ?thesis
    using findTarget_acquire [OF assms(2)] by blast
qed

lemma firstNearestAlive_exhaustive:
  assumes "inRangeAlive pos ps"
  shows "noneAliveInRange pos ps \<or> (\<exists>j. firstNearestAliveAt pos ps j)"
proof (cases "scanPlayers pos ps None")
  case None
  then show ?thesis
    using noneAliveInRange_iff [OF assms] scanPlayers_None_iff [of pos ps] by blast
next
  case (Some r)
  obtain pid d where "r = (pid, d)" by (cases r)
  then obtain j where "firstNearestAt pos ps j"
    using Some scanPlayers_Some_iff [of pos ps pid d] by blast
  then show ?thesis using firstNearestAlive_iff [OF assms] by blast
qed

text \<open>
  C4, as the code has it, for a table in which every player within the detection radius
  of the enemy is alive and has a non-empty id. An enemy whose target is in the table and
  alive keeps it. Otherwise, with no living player within the detection radius 50 the
  enemy is unchanged; and the living player that is nearest, within the radius, and
  of the players at that least distance the one enumerated first, becomes the target,
  with the cycle index 0 and the enemy hopping with a timer of 1000 ms. One of the two
  cases holds, and the first nearest living player is unique.
\<close>

theorem findTarget_first_nearest:
  assumes "inRangeAlive (e_position e) players"
  shows
    "(hasLiveTarget players e \<longrightarrow> findTarget players e = e) \<and>
     (\<not> hasLiveTarget players e \<and> noneAliveInRange (e_position e) players \<longrightarrow>
        findTarget players e = e) \<and>
     (\<not> hasLiveTarget players e \<and> firstNearestAliveAt (e_position e) players i \<longrightarrow>
        targetPlayerId (findTarget players e) = Some (fst (players ! i)) \<and>
        currentActionIndex (findTarget players e) = 0 \<and>
        e_action (findTarget players e) = Hop \<and>
        actionTimer (findTarget players e) = MOVE_DURATION) \<and>
     (noneAliveInRange (e_position e) players \<or>
      (\<exists>j. firstNearestAliveAt (e_position e) players j)) \<and>
     (firstNearestAliveAt (e_position e) players i \<and>
      firstNearestAliveAt (e_position e) players j \<longrightarrow> i = j)"
proof -
  have u: "i = j"
    if "firstNearestAliveAt (e_position e) players i"
      "firstNearestAliveAt (e_position e) players j"
    using that firstNearestAlive_iff [OF assms] firstNearestAt_unique by blast
  show ?thesis
    using findTarget_live [of players e] findTarget_none_alive [OF assms]
      findTarget_acquire_alive [OF assms, of i] firstNearestAlive_exhaustive [OF assms] u
    by blast
qed

lemma ex_table_ba_alive: "inRangeAlive pos ex_table_ba"
  by (simp add: inRangeAlive_def ex_table_ba_def ex_player_a_def ex_player_b_def newPlayer_def)

theorem findTarget_first_nearest_witness:
  "inRangeAlive (e_position ex_enemy) ex_table_ba \<and>
   \<not> hasLiveTarget ex_table_ba ex_enemy \<and>
   firstNearestAliveAt (e_position ex_enemy) ex_table_ba 0 \<and>
   fst (ex_table_ba ! 0) = ''b'' \<and>
   playerDistance (e_position ex_enemy) (ex_table_ba ! 0) = 10 \<and>
   targetPlayerId (findTarget ex_table_ba ex_enemy) = Some ''b'' \<and>
   currentActionIndex (findTarget ex_table_ba ex_enemy) = 0 \<and>
   e_action (findTarget ex_table_ba ex_enemy) = Hop \<and>
   inRangeAlive (e_position ex_hunter) ex_players \<and>
   hasLiveTarget ex_players ex_hunter \<and>
   findTarget ex_players ex_hunter = ex_hunter \<and>
   inRangeAlive (e_position ex_enemy) [] \<and>
   noneAliveInRange (e_position ex_enemy) [] \<and>
   findTarget [] ex_enemy = ex_enemy"
proof -
  note th = findTarget_first_nearest [OF ex_table_ba_alive, of ex_enemy 0 0]
  have 1: "firstNearestAliveAt (e_position ex_enemy) ex_table_ba 0"
    using ex_distance_a ex_distance_b
    by (simp add: firstNearestAliveAt_def ex_enemy_position ex_table_ba_def detectionRadius_def
        ex_player_b_def newPlayer_def)
  have 2: "fst (ex_table_ba ! 0) = ''b'' \<and>
           playerDistance (e_position ex_enemy) (ex_table_ba ! 0) = 10"
    using ex_distance_b by (simp add: ex_enemy_position ex_table_ba_def)
  have 3: "targetPlayerId (findTarget ex_table_ba ex_enemy) = Some ''b'' \<and>
        currentActionIndex (findTarget ex_table_ba ex_enemy) = 0 \<and>
        e_action (findTarget ex_table_ba ex_enemy) = Hop"
    using th 1 2 ex_enemy_idle [of ex_table_ba] by simp
  have h: "inRangeAlive (e_position ex_hunter) ex_players"
    by (simp add: inRangeAlive_def ex_players_def ex_player_def newPlayer_def)
  have 4: "findTarget ex_players ex_hunter = ex_hunter"
    using findTarget_first_nearest [OF h, of 0 0] ex_hunter_live by blast
  have e: "inRangeAlive (e_position ex_enemy) [] \<and> noneAliveInRange (e_position ex_enemy) []"
    by (simp add: inRangeAlive_def noneAliveInRange_def)
  then have 5: "findTarget [] ex_enemy = ex_enemy"
    using findTarget_first_nearest [of ex_enemy "[]" 0 0] ex_enemy_idle [of "[]"] by blast
  show ?thesis
    using 1 2 3 h 4 e 5 ex_table_ba_alive [of "e_position ex_enemy"] ex_enemy_idle [of ex_table_ba]
      ex_hunter_live
    by simp
qed

text \<open>
  Players \<open>a\<close> and \<open>b\<close>, both at distance 10 from the enemy: with \<open>b\<close> enumerated first
  the target is \<open>b\<close>, with \<open>a\<close> first it is \<open>a\<close>.
\<close>

theorem findTarget_tie_order_counterexample:
  "set ex_table_ab = set ex_table_ba \<and>
   playerDistance (e_position ex_enemy) (''a'', ex_player_a) =
     playerDistance (e_position ex_enemy) (''b'', ex_player_b) \<and>
   (of_char (CHR ''a'') :: nat) < of_char (CHR ''b'') \<and>
   targetPlayerId (findTarget ex_table_ba ex_enemy) = Some ''b'' \<and>
   targetPlayerId (findTarget ex_table_ab ex_enemy) = Some ''a''"
proof -
  have 1: "targetPlayerId (findTarget ex_table_ba ex_enemy) = Some ''b''"
    using findTarget_acquire [OF ex_enemy_idle ex_scan_ba] by simp
  have 2: "targetPlayerId (findTarget ex_table_ab ex_enemy) = Some ''a''"
    using findTarget_acquire [OF ex_enemy_idle ex_scan_ab] by simp
  have 3: "set ex_table_ab = set ex_table_ba"
    by (auto simp: ex_table_ab_def ex_table_ba_def)
  show ?thesis
    using 1 2 3 by (simp add: ex_enemy_position ex_distance_a ex_distance_b)
qed


lemma performAction_clears:
  "truthy_str (targetPlayerId e) \<Longrightarrow> \<not> hasLiveTarget players e \<Longrightarrow>
     performAction players e = e\<lparr>targetPlayerId := None, e_action := Idle, velocity := zeroVec\<rparr>"
  by (simp add: performAction_def hasLiveTarget_def split: option.splits)

lemma performAction_keeps:
  "hasLiveTarget players e \<Longrightarrow> performAction players e = e"
  by (auto simp: performAction_def hasLiveTarget_def split: option.splits)

lemma findTarget_truthy:
  "truthy_str (targetPlayerId e) \<Longrightarrow> truthy_str (targetPlayerId (findTarget players e))"
  by (auto simp: findTarget_def executeNextAction_def Let_def executeAction_target truthy_str_def
      split: option.splits prod.splits)

text \<open>
  C6, as the code has it. \<open>performAction\<close> clears the target, sets the action to idle and
  the velocity to zero when the enemy's target is not in the player table or is not
  alive. A target that is in the table and alive is kept by the whole targeting step
  (\<open>findTarget\<close>, then \<open>performAction\<close>), which leaves the enemy unchanged: the distance
  to the target is not looked at. For a target that is gone or dead, the targeting step
  ends with the target cleared, idle and at rest, or with a newly acquired live target.
\<close>

theorem performAction_clears_target:
  "(truthy_str (targetPlayerId e) \<and> \<not> hasLiveTarget players e \<longrightarrow>
      targetPlayerId (performAction players e) = None \<and>
      e_action (performAction players e) = Idle \<and>
      velocity (performAction players e) = zeroVec) \<and>
   (hasLiveTarget players e \<longrightarrow> performAction players e = e \<and> targetingStep players e = e) \<and>
   (truthy_str (targetPlayerId e) \<and> \<not> hasLiveTarget players e \<longrightarrow>
      targetPlayerId (targetingStep players e) = None \<and>
      e_action (targetingStep players e) = Idle \<and>
      velocity (targetingStep players e) = zeroVec
      \<or> hasLiveTarget players (targetingStep players e))"
proof -
  have 1: "targetPlayerId (performAction players e') = None \<and>
           e_action (performAction players e') = Idle \<and>
           velocity (performAction players e') = zeroVec"
    if "truthy_str (targetPlayerId e')" "\<not> hasLiveTarget players e'" for e'
    using performAction_clears [OF that] by simp
  have 2: "performAction players e = e \<and> targetingStep players e = e"
    if "hasLiveTarget players e"
    using that by (simp add: targetingStep_def findTarget_live performAction_keeps)
  have 3: "targetPlayerId (targetingStep players e) = None \<and>
      e_action (targetingStep players e) = Idle \<and>
      velocity (targetingStep players e) = zeroVec
      \<or> hasLiveTarget players (targetingStep players e)"
    if t: "truthy_str (targetPlayerId e)"
  proof (cases "hasLiveTarget players (findTarget players e)")
    case True
    then show ?thesis by (simp add: targetingStep_def performAction_keeps)
  next
    case False
    then show ?thesis
      using 1 [OF findTarget_truthy [OF t, of players]] by (simp add: targetingStep_def)
  qed
  show ?thesis using 1 [of e] 2 3 by blast
qed

theorem performAction_clears_target_witness:
  "truthy_str (targetPlayerId ex_hunter) \<and> \<not> hasLiveTarget [] ex_hunter \<and>
   targetPlayerId (performAction [] ex_hunter) = None \<and>
   e_action (performAction [] ex_hunter) = Idle \<and>
   velocity (performAction [] ex_hunter) = zeroVec \<and>
   hasLiveTarget ex_players ex_hunter \<and>
   targetingStep ex_players ex_hunter = ex_hunter"
proof -
  have 1: "truthy_str (targetPlayerId ex_hunter) \<and> \<not> hasLiveTarget [] ex_hunter"
    by (simp add: ex_hunter_target truthy_str_def hasLiveTarget_def)
  have 2: "targetPlayerId (performAction [] ex_hunter) = None \<and>
           e_action (performAction [] ex_hunter) = Idle \<and>
           velocity (performAction [] ex_hunter) = zeroVec"
    using performAction_clears_target [of ex_hunter "[]"] 1 by blast
  have 3: "targetingStep ex_players ex_hunter = ex_hunter"
    using performAction_clears_target [of ex_hunter ex_players] ex_hunter_live by blast
  show ?thesis using 1 2 3 ex_hunter_live by simp
qed

text \<open>
  An enemy hopping after player \<open>p1\<close>, who is alive and 200 away (beyond the detection
  radius 50): after the targeting step the target is still \<open>p1\<close> and the action still
  hop.
\<close>

theorem performAction_distance_counterexample:
  "targetPlayerId ex_hunter = Some ''p1'' \<and>
   map_of ex_players ''p1'' = Some ex_player \<and> isAlive ex_player \<and>
   getDistance (e_position ex_hunter) (position ex_player) = 200 \<and>
   detectionRadius < 200 \<and>
   targetPlayerId (targetingStep ex_players ex_hunter) = Some ''p1'' \<and>
   e_action (targetingStep ex_players ex_hunter) = Hop"
proof -
  have 1: "targetingStep ex_players ex_hunter = ex_hunter"
    using ex_hunter_live by (simp add: targetingStep_def findTarget_live performAction_keeps)
  have 2: "getDistance (e_position ex_hunter) (position ex_player) = 200"
    by (simp add: getDistance_def ex_hunter_def ex_player_def newPlayer_def sqrt_40000)
  have 3: "map_of ex_players ''p1'' = Some ex_player \<and> isAlive ex_player"
    by (simp add: ex_players_def ex_player_def newPlayer_def)
  have 4: "e_action ex_hunter = Hop"
    by (simp add: ex_hunter_def)
  show ?thesis
    using 2 3 4 by (simp add: 1 ex_hunter_target detectionRadius_def)
qed

section \<open>Properties of combat\<close>

lemma scanEnemies_append:
  "scanEnemies pos (es @ qs) best = scanEnemies pos qs (scanEnemies pos es best)"
  by (induction es arbitrary: best) (auto simp: Let_def)

lemma scanEnemies_snoc:
  "scanEnemies pos (es @ [x]) best =
     (let r = scanEnemies pos es best in
      if alive (snd x) \<and>
         (case r of None \<Rightarrow> True | Some (c, m) \<Rightarrow> enemyDistance pos x < m) \<and>
         enemyDistance pos x < 50
      then Some (x, enemyDistance pos x) else r)"
  by (cases x; cases "scanEnemies pos es best")
    (auto simp: scanEnemies_append Let_def enemyDistance_def)

lemma firstNearestEnemyAt_index:
  "firstNearestEnemyAt pos es i \<longleftrightarrow>
     i < length es \<and> alive (snd (es ! i)) \<and> enemyDistance pos (es ! i) < 50 \<and>
     (\<forall>j<i. alive (snd (es ! j)) \<longrightarrow> enemyDistance pos (es ! i) < enemyDistance pos (es ! j)) \<and>
     (\<forall>j. i < j \<and> j < length es \<longrightarrow>
          alive (snd (es ! j)) \<longrightarrow> enemyDistance pos (es ! i) \<le> enemyDistance pos (es ! j))"
proof (cases "i < length es")
  case True
  then show ?thesis
    unfolding firstNearestEnemyAt_def list_all_drop_iff
    by (simp add: list_all_take_iff)
next
  case False
  then show ?thesis by (simp add: firstNearestEnemyAt_def)
qed

lemma firstNearestEnemyAt_least:
  assumes "firstNearestEnemyAt pos es i" and "j < length es" and "alive (snd (es ! j))"
  shows "enemyDistance pos (es ! i) \<le> enemyDistance pos (es ! j)"
proof -
  consider "j < i" | "j = i" | "i < j" by arith
  then show ?thesis
  proof cases
    case 1
    then show ?thesis using assms(1,3) unfolding firstNearestEnemyAt_index by fastforce
  next
    case 2
    then show ?thesis by simp
  next
    case 3
    then show ?thesis using assms unfolding firstNearestEnemyAt_index by blast
  qed
qed

lemma firstNearestEnemyAt_snoc_new:
  assumes "\<forall>j<length es. alive (snd (es ! j)) \<longrightarrow> enemyDistance pos x < enemyDistance pos (es ! j)"
    and "enemyDistance pos x < 50" and "alive (snd x)"
  shows "firstNearestEnemyAt pos (es @ [x]) (length es)"
  using assms unfolding firstNearestEnemyAt_index by (simp add: nth_append)

lemma firstNearestEnemyAt_snoc_keep:
  assumes "firstNearestEnemyAt pos es i"
    and "alive (snd x) \<longrightarrow> enemyDistance pos (es ! i) \<le> enemyDistance pos x"
  shows "firstNearestEnemyAt pos (es @ [x]) i"
  using assms unfolding firstNearestEnemyAt_index by (auto simp: nth_append)

lemma firstNearestEnemyAt_unique:
  assumes "firstNearestEnemyAt pos es i" and "firstNearestEnemyAt pos es j"
  shows "i = j"
proof (rule ccontr)
  assume "i \<noteq> j"
  then consider "i < j" | "j < i" by arith
  then show False
  proof cases
    case 1
    have "enemyDistance pos (es ! j) < enemyDistance pos (es ! i)"
      using assms 1 unfolding firstNearestEnemyAt_index by blast
    moreover have "enemyDistance pos (es ! i) \<le> enemyDistance pos (es ! j)"
      using firstNearestEnemyAt_least [OF assms(1)] assms(2)
      unfolding firstNearestEnemyAt_index by blast
    ultimately show False by simp
  next
    case 2
    have "enemyDistance pos (es ! i) < enemyDistance pos (es ! j)"
      using assms 2 unfolding firstNearestEnemyAt_index by blast
    moreover have "enemyDistance pos (es ! j) \<le> enemyDistance pos (es ! i)"
      using firstNearestEnemyAt_least [OF assms(2)] assms(1)
      unfolding firstNearestEnemyAt_index by blast
    ultimately show False by simp
  qed
qed

lemma scanEnemies_spec:
  "case scanEnemies pos es None of
     None \<Rightarrow> \<forall>j<length es. alive (snd (es ! j)) \<longrightarrow> 50 \<le> enemyDistance pos (es ! j)
   | Some (q, d) \<Rightarrow>
       \<exists>i. firstNearestEnemyAt pos es i \<and> es ! i = q \<and> d = enemyDistance pos (es ! i)"
proof (induction es rule: rev_induct)
  case Nil
  then show ?case by simp
next
  case (snoc x es)
  show ?case
  proof (cases "scanEnemies pos es None")
    case None
    then have far: "\<forall>j<length es. alive (snd (es ! j)) \<longrightarrow> 50 \<le> enemyDistance pos (es ! j)"
      using snoc by simp
    show ?thesis
    proof (cases "alive (snd x) \<and> enemyDistance pos x < 50")
      case True
      have "\<forall>j<length es. alive (snd (es ! j)) \<longrightarrow> enemyDistance pos x < enemyDistance pos (es ! j)"
        using far True by fastforce
      then have "firstNearestEnemyAt pos (es @ [x]) (length es)"
        using True by (simp add: firstNearestEnemyAt_snoc_new)
      moreover have "scanEnemies pos (es @ [x]) None = Some (x, enemyDistance pos x)"
        using None True by (simp add: scanEnemies_snoc)
      ultimately show ?thesis by auto
    next
      case False
      then have "scanEnemies pos (es @ [x]) None = None"
        using None by (auto simp: scanEnemies_snoc)
      moreover have "\<forall>j<length (es @ [x]). alive (snd ((es @ [x]) ! j)) \<longrightarrow>
                       50 \<le> enemyDistance pos ((es @ [x]) ! j)"
        using far False by (auto simp: nth_append less_Suc_eq)
      ultimately show ?thesis by simp
    qed
  next
    case (Some r)
    obtain q d where r: "r = (q, d)" by (cases r)
    obtain i where i: "firstNearestEnemyAt pos es i" "es ! i = q"
      "d = enemyDistance pos (es ! i)"
      using snoc Some r by auto
    have dr: "d < 50" using i unfolding firstNearestEnemyAt_index by simp
    have il: "i < length es" using i unfolding firstNearestEnemyAt_index by simp
    show ?thesis
    proof (cases "alive (snd x) \<and> enemyDistance pos x < d \<and> enemyDistance pos x < 50")
      case True
      have "\<forall>j<length es. alive (snd (es ! j)) \<longrightarrow> enemyDistance pos x < enemyDistance pos (es ! j)"
        using firstNearestEnemyAt_least [OF i(1)] True i(3) by fastforce
      then have "firstNearestEnemyAt pos (es @ [x]) (length es)"
        using True by (simp add: firstNearestEnemyAt_snoc_new)
      moreover have "scanEnemies pos (es @ [x]) None = Some (x, enemyDistance pos x)"
        using Some r True by (simp add: scanEnemies_snoc)
      ultimately show ?thesis by auto
    next
      case False
      then have "alive (snd x) \<longrightarrow> enemyDistance pos (es ! i) \<le> enemyDistance pos x"
        using dr i(3) by auto
      with i(1) have "firstNearestEnemyAt pos (es @ [x]) i"
        by (rule firstNearestEnemyAt_snoc_keep)
      moreover have "scanEnemies pos (es @ [x]) None = Some (q, d)"
        using Some r False by (auto simp: scanEnemies_snoc)
      moreover have "(es @ [x]) ! i = es ! i" using il by (simp add: nth_append)
      ultimately show ?thesis using i(2,3) by auto
    qed
  qed
qed

lemma scanEnemies_None_iff:
  "scanEnemies pos es None = None \<longleftrightarrow>
     list_all (\<lambda>q. alive (snd q) \<longrightarrow> 50 \<le> enemyDistance pos q) es"
proof
  assume "scanEnemies pos es None = None"
  then show "list_all (\<lambda>q. alive (snd q) \<longrightarrow> 50 \<le> enemyDistance pos q) es"
    using scanEnemies_spec [where pos = pos and es = es] by (simp add: list_all_length)
next
  assume far: "list_all (\<lambda>q. alive (snd q) \<longrightarrow> 50 \<le> enemyDistance pos q) es"
  show "scanEnemies pos es None = None"
  proof (cases "scanEnemies pos es None")
    case None
    then show ?thesis .
  next
    case (Some r)
    then obtain i where "firstNearestEnemyAt pos es i"
      using scanEnemies_spec [where pos = pos and es = es] by (cases r) auto
    then have "i < length es" "alive (snd (es ! i))" "enemyDistance pos (es ! i) < 50"
      unfolding firstNearestEnemyAt_index by simp_all
    then show ?thesis using far by (auto simp: list_all_length)
  qed
qed

lemma scanEnemies_Some_iff:
  "scanEnemies pos es None = Some (q, d) \<longleftrightarrow>
     (\<exists>i. firstNearestEnemyAt pos es i \<and> es ! i = q \<and> d = enemyDistance pos q)"
proof
  assume "scanEnemies pos es None = Some (q, d)"
  then show "\<exists>i. firstNearestEnemyAt pos es i \<and> es ! i = q \<and> d = enemyDistance pos q"
    using scanEnemies_spec [where pos = pos and es = es] by auto
next
  assume "\<exists>i. firstNearestEnemyAt pos es i \<and> es ! i = q \<and> d = enemyDistance pos q"
  then obtain i where i: "firstNearestEnemyAt pos es i" "es ! i = q"
    "d = enemyDistance pos q" by blast
  have il: "i < length es" "alive (snd (es ! i))" "enemyDistance pos (es ! i) < 50"
    using i(1) unfolding firstNearestEnemyAt_index by simp_all
  show "scanEnemies pos es None = Some (q, d)"
  proof (cases "scanEnemies pos es None")
    case None
    then have "list_all (\<lambda>q. alive (snd q) \<longrightarrow> 50 \<le> enemyDistance pos q) es"
      by (simp add: scanEnemies_None_iff)
    then show ?thesis using il by (auto simp: list_all_length)
  next
    case (Some r)
    obtain q' d' where r: "r = (q', d')" by (cases r)
    obtain j where j: "firstNearestEnemyAt pos es j" "es ! j = q'"
      "d' = enemyDistance pos (es ! j)"
      using scanEnemies_spec [where pos = pos and es = es] Some r by auto
    have "i = j" using i(1) j(1) by (rule firstNearestEnemyAt_unique)
    then show ?thesis using Some r i j by simp
  qed
qed


lemma map_of_tableUpdate:
  "map_of t k = Some v0 \<Longrightarrow> map_of (tableUpdate k v t) k = Some v"
  by (induction t) (auto simp: tableUpdate_def split: if_splits)

lemma map_of_tableDelete: "map_of (tableDelete k t) k = None"
  by (induction t) (auto simp: tableDelete_def)

lemma takeDamage_dies:
  "e_health en - amount \<le> 0 \<Longrightarrow>
     takeDamage en amount = (en\<lparr>e_health := e_health en - amount, alive := False\<rparr>, True)"
  by (simp add: takeDamage_def Let_def)

lemma takeDamage_survives:
  "0 < e_health en - amount \<Longrightarrow>
     takeDamage en amount =
       (en\<lparr>e_health := e_health en - amount, velocity := zeroVec, e_action := Confused,
           actionTimer := PAUSE_DURATION\<rparr>, False)"
  by (simp add: takeDamage_def Let_def)

lemma takeDamage_three:
  "e_health e0 = 30 \<Longrightarrow>
     \<not> alive (fst (takeDamage (fst (takeDamage (fst (takeDamage e0 10)) 10)) 10)) \<and>
     e_health (fst (takeDamage (fst (takeDamage (fst (takeDamage e0 10)) 10)) 10)) \<le> 0"
  by (simp add: takeDamage_def Let_def)

lemma handleAttack_miss:
  "map_of players pid = Some player \<Longrightarrow>
   scanEnemies (position player) enemies None = None \<Longrightarrow>
     handleAttack players enemies pid = (players, enemies)"
  by (simp add: handleAttack_def)

lemma handleAttack_kill:
  "map_of players pid = Some player \<Longrightarrow>
   scanEnemies (position player) enemies None = Some ((k, en), d) \<Longrightarrow>
   e_health en - 10 \<le> 0 \<Longrightarrow>
     handleAttack players enemies pid =
       (tableUpdate pid (fst (gainExp player 50)) players,
        tableDelete (enemy_id en)
          (tableUpdate k (en\<lparr>e_health := e_health en - 10, alive := False\<rparr>) enemies))"
  by (simp add: handleAttack_def takeDamage_dies)

lemma handleAttack_hit:
  "map_of players pid = Some player \<Longrightarrow>
   scanEnemies (position player) enemies None = Some ((k, en), d) \<Longrightarrow>
   0 < e_health en - 10 \<Longrightarrow>
     handleAttack players enemies pid =
       (players,
        tableUpdate k (en\<lparr>e_health := e_health en - 10, velocity := zeroVec,
                          e_action := Confused, actionTimer := PAUSE_DURATION\<rparr>) enemies)"
  by (simp add: handleAttack_def takeDamage_survives)

lemma playerStep_enemies:
  "map_of players pid = Some player \<Longrightarrow>
     snd (playerStep ml pid (players, enemies)) =
       (if isAttacking player then snd (handleAttack players enemies pid) else enemies)"
  by (simp add: playerStep_def Let_def split: option.splits)

text \<open>
  C7, as the code has it. In the tick of a player of the table, \<open>handleAttack\<close> runs
  exactly when the buffered action is \<open>"attack"\<close>. It finds nothing exactly when every
  living enemy is at distance 50 or more, and then changes nothing; it finds the enemy
  \<open>en\<close> exactly when \<open>en\<close> is the first living enemy at the least distance and that
  distance is strictly less than 50. The enemy found loses 10 health. With health then at
  most 0 it is marked dead, the player's entry becomes the player after \<open>gainExp\<close> of 50,
  and the enemy table has no entry under the enemy's id. Otherwise the enemy stays alive,
  confused, at rest, with a timer of 1000 ms, and the player table is unchanged. An enemy
  of health 30 that takes 10 damage three times is dead with health at most 0.
\<close>

theorem handleAttack_combat:
  assumes "map_of players pid = Some player"
  shows
    "snd (playerStep ml pid (players, enemies)) =
       (if isAttacking player then snd (handleAttack players enemies pid) else enemies) \<and>
     (scanEnemies (position player) enemies None = None \<longleftrightarrow>
        list_all (\<lambda>q. alive (snd q) \<longrightarrow> 50 \<le> enemyDistance (position player) q) enemies) \<and>
     (scanEnemies (position player) enemies None = Some ((k, en), d) \<longleftrightarrow>
        (\<exists>i. firstNearestEnemyAt (position player) enemies i \<and> enemies ! i = (k, en) \<and>
             d = enemyDistance (position player) (k, en))) \<and>
     (scanEnemies (position player) enemies None = None \<longrightarrow>
        handleAttack players enemies pid = (players, enemies)) \<and>
     (scanEnemies (position player) enemies None = Some ((k, en), d) \<and> e_health en - 10 \<le> 0 \<longrightarrow>
        takeDamage en 10 = (en\<lparr>e_health := e_health en - 10, alive := False\<rparr>, True) \<and>
        handleAttack players enemies pid =
          (tableUpdate pid (fst (gainExp player 50)) players,
           tableDelete (enemy_id en)
             (tableUpdate k (en\<lparr>e_health := e_health en - 10, alive := False\<rparr>) enemies)) \<and>
        map_of (fst (handleAttack players enemies pid)) pid = Some (fst (gainExp player 50)) \<and>
        map_of (snd (handleAttack players enemies pid)) (enemy_id en) = None) \<and>
     (scanEnemies (position player) enemies None = Some ((k, en), d) \<and> 0 < e_health en - 10 \<longrightarrow>
        takeDamage en 10 =
          (en\<lparr>e_health := e_health en - 10, velocity := zeroVec, e_action := Confused,
              actionTimer := PAUSE_DURATION\<rparr>, False) \<and>
        alive en \<and>
        handleAttack players enemies pid =
          (players,
           tableUpdate k (en\<lparr>e_health := e_health en - 10, velocity := zeroVec,
                             e_action := Confused, actionTimer := PAUSE_DURATION\<rparr>) enemies)) \<and>
     (e_health e0 = 30 \<longrightarrow>
        \<not> alive (fst (takeDamage (fst (takeDamage (fst (takeDamage e0 10)) 10)) 10)) \<and>
        e_health (fst (takeDamage (fst (takeDamage (fst (takeDamage e0 10)) 10)) 10)) \<le> 0)"
proof -
  let ?scan = "scanEnemies (position player) enemies None"
  have kill: "takeDamage en 10 = (en\<lparr>e_health := e_health en - 10, alive := False\<rparr>, True) \<and>
        handleAttack players enemies pid =
          (tableUpdate pid (fst (gainExp player 50)) players,
           tableDelete (enemy_id en)
             (tableUpdate k (en\<lparr>e_health := e_health en - 10, alive := False\<rparr>) enemies)) \<and>
        map_of (fst (handleAttack players enemies pid)) pid = Some (fst (gainExp player 50)) \<and>
        map_of (snd (handleAttack players enemies pid)) (enemy_id en) = None"
    if "?scan = Some ((k, en), d)" "e_health en - 10 \<le> 0"
    using handleAttack_kill [OF assms that] takeDamage_dies [OF that(2)]
      map_of_tableUpdate [OF assms] map_of_tableDelete
    by simp
  have hit: "takeDamage en 10 =
          (en\<lparr>e_health := e_health en - 10, velocity := zeroVec, e_action := Confused,
              actionTimer := PAUSE_DURATION\<rparr>, False) \<and>
        alive en \<and>
        handleAttack players enemies pid =
          (players,
           tableUpdate k (en\<lparr>e_health := e_health en - 10, velocity := zeroVec,
                             e_action := Confused, actionTimer := PAUSE_DURATION\<rparr>) enemies)"
    if h: "?scan = Some ((k, en), d)" "0 < e_health en - 10"
  proof -
    obtain i where "firstNearestEnemyAt (position player) enemies i" "enemies ! i = (k, en)"
      using h(1) scanEnemies_Some_iff [of "position player" enemies "(k, en)" d] by blast
    then have "alive en" unfolding firstNearestEnemyAt_index by simp
    then show ?thesis
      using handleAttack_hit [OF assms h] takeDamage_survives [OF h(2)] by simp
  qed
  show ?thesis
    using scanEnemies_None_iff [of "position player" enemies]
      scanEnemies_Some_iff [of "position player" enemies "(k, en)" d]
      handleAttack_miss [OF assms, of enemies] kill hit takeDamage_three [of e0]
      playerStep_enemies [OF assms, of ml enemies]
    by blast
qed


lemma sqrt_2500: "sqrt 2500 = 50"
  by (rule real_sqrt_unique) simp_all

lemma ex_players_p1: "map_of ex_players ''p1'' = Some ex_player"
  by (simp add: ex_players_def)

lemma ex_player_position: "position ex_player = \<lparr>x_coord = 300, y_coord = 200\<rparr>"
  by (simp add: ex_player_def newPlayer_def)

lemma ex_enemy_distance:
  "enemyDistance \<lparr>x_coord = 300, y_coord = 200\<rparr> (k, ex_enemy) = 10"
  "enemyDistance \<lparr>x_coord = 300, y_coord = 200\<rparr> (k, ex_enemy_weak) = 10"
  by (simp_all add: enemyDistance_def getDistance_def ex_enemy_weak_def ex_enemy_def newEnemy_def
      sqrt_100)

lemma ex_enemy_health:
  "e_health ex_enemy = 30" "alive ex_enemy" "e_health ex_enemy_weak = 10" "alive ex_enemy_weak"
  "enemy_id ex_enemy_weak = ''e1''"
  by (simp_all add: ex_enemy_weak_def ex_enemy_def newEnemy_def)

theorem handleAttack_combat_witness:
  "map_of ex_players ''p1'' = Some ex_player \<and>
   scanEnemies (position ex_player) ex_enemies None = Some ((''e1'', ex_enemy), 10) \<and>
   handleAttack ex_players ex_enemies ''p1'' =
     (ex_players,
      [(''e1'', ex_enemy\<lparr>e_health := 20, velocity := zeroVec, e_action := Confused,
                         actionTimer := PAUSE_DURATION\<rparr>)]) \<and>
   scanEnemies (position ex_player) [(''e1'', ex_enemy_weak)] None =
     Some ((''e1'', ex_enemy_weak), 10) \<and>
   handleAttack ex_players [(''e1'', ex_enemy_weak)] ''p1'' =
     ([(''p1'', ex_player\<lparr>pexp := 50\<rparr>)], []) \<and>
   handleAttack ex_players [] ''p1'' = (ex_players, []) \<and>
   e_health ex_enemy = 30 \<and>
   \<not> alive (fst (takeDamage (fst (takeDamage (fst (takeDamage ex_enemy 10)) 10)) 10)) \<and>
   e_health (fst (takeDamage (fst (takeDamage (fst (takeDamage ex_enemy 10)) 10)) 10)) \<le> 0"
proof -
  have a3: "handleAttack ex_players [] ''p1'' = (ex_players, [])"
    using handleAttack_combat [OF ex_players_p1, of ex_map "[]" "''e1''" ex_enemy 10 ex_enemy]
    by simp
  note th1 = handleAttack_combat [OF ex_players_p1, of ex_map ex_enemies "''e1''" ex_enemy 10 ex_enemy]
  note th2 = handleAttack_combat [OF ex_players_p1, of ex_map "[(''e1'', ex_enemy_weak)]" "''e1''"
      ex_enemy_weak 10 ex_enemy]
  have "firstNearestEnemyAt (position ex_player) ex_enemies 0 \<and>
        ex_enemies ! 0 = (''e1'', ex_enemy) \<and>
        10 = enemyDistance (position ex_player) (''e1'', ex_enemy)"
    by (simp add: firstNearestEnemyAt_def ex_enemies_def ex_player_position ex_enemy_distance
        ex_enemy_health)
  then have s1: "scanEnemies (position ex_player) ex_enemies None = Some ((''e1'', ex_enemy), 10)"
    using th1 by blast
  have "handleAttack ex_players ex_enemies ''p1'' =
          (ex_players,
           tableUpdate ''e1'' (ex_enemy\<lparr>e_health := e_health ex_enemy - 10, velocity := zeroVec,
                             e_action := Confused, actionTimer := PAUSE_DURATION\<rparr>) ex_enemies)"
    using th1 s1 by (simp add: ex_enemy_health)
  then have a1: "handleAttack ex_players ex_enemies ''p1'' =
     (ex_players,
      [(''e1'', ex_enemy\<lparr>e_health := 20, velocity := zeroVec, e_action := Confused,
                         actionTimer := PAUSE_DURATION\<rparr>)])"
    by (simp add: tableUpdate_def ex_enemies_def ex_enemy_health)
  have "firstNearestEnemyAt (position ex_player) [(''e1'', ex_enemy_weak)] 0 \<and>
        [(''e1'', ex_enemy_weak)] ! 0 = (''e1'', ex_enemy_weak) \<and>
        10 = enemyDistance (position ex_player) (''e1'', ex_enemy_weak)"
    by (simp add: firstNearestEnemyAt_def ex_player_position ex_enemy_distance ex_enemy_health)
  then have s2: "scanEnemies (position ex_player) [(''e1'', ex_enemy_weak)] None =
     Some ((''e1'', ex_enemy_weak), 10)"
    using th2 by blast
  have "handleAttack ex_players [(''e1'', ex_enemy_weak)] ''p1'' =
          (tableUpdate ''p1'' (fst (gainExp ex_player 50)) ex_players,
           tableDelete (enemy_id ex_enemy_weak)
             (tableUpdate ''e1'' (ex_enemy_weak\<lparr>e_health := e_health ex_enemy_weak - 10, alive := False\<rparr>)
                [(''e1'', ex_enemy_weak)]))"
    using th2 s2 by (simp add: ex_enemy_health)
  then have a2: "handleAttack ex_players [(''e1'', ex_enemy_weak)] ''p1'' =
     ([(''p1'', ex_player\<lparr>pexp := 50\<rparr>)], [])"
    by (simp add: tableUpdate_def tableDelete_def ex_players_def ex_enemy_health gainExp_def
        Let_def ex_player_def newPlayer_def)
  have a4: "\<not> alive (fst (takeDamage (fst (takeDamage (fst (takeDamage ex_enemy 10)) 10)) 10)) \<and>
      e_health (fst (takeDamage (fst (takeDamage (fst (takeDamage ex_enemy 10)) 10)) 10)) \<le> 0"
    using th1 ex_enemy_health(1) by blast
  show ?thesis using ex_players_p1 s1 a1 s2 a2 a3 a4 ex_enemy_health(1) by simp
qed

text \<open>
  A living enemy at distance exactly 50 from the attacking player: \<open>handleAttack\<close>
  changes neither table, the enemy keeps its health 30.
\<close>

theorem handleAttack_radius_counterexample:
  "map_of ex_players ''p1'' = Some ex_player \<and>
   alive ex_enemy_at_50 \<and> e_health ex_enemy_at_50 = 30 \<and>
   getDistance (position ex_player) (e_position ex_enemy_at_50) = 50 \<and>
   handleAttack ex_players [(''e2'', ex_enemy_at_50)] ''p1'' =
     (ex_players, [(''e2'', ex_enemy_at_50)])"
proof -
  have d: "getDistance (position ex_player) (e_position ex_enemy_at_50) = 50"
    by (simp add: getDistance_def ex_player_position ex_enemy_at_50_def newEnemy_def sqrt_2500)
  have a: "alive ex_enemy_at_50 \<and> e_health ex_enemy_at_50 = 30"
    by (simp add: ex_enemy_at_50_def newEnemy_def)
  have "scanEnemies (position ex_player) [(''e2'', ex_enemy_at_50)] None = None"
    using d a by simp
  then have "handleAttack ex_players [(''e2'', ex_enemy_at_50)] ''p1'' =
     (ex_players, [(''e2'', ex_enemy_at_50)])"
    using ex_players_p1 by (rule handleAttack_miss [rotated])
  then show ?thesis using d a ex_players_p1 by simp
qed

end
